theory Spec2Isabelle
  imports Main "HOL-Library.Multiset"
begin

section \<open>Python values\<close>

text \<open>
  The scraper works on what \<open>json.loads\<close> returns: \<open>None\<close>, booleans, integers, strings,
  lists and dictionaries. A character is a code point below 256, a string is a list of
  them, and a dictionary is an association list with distinct keys, read with
  \<open>map_of\<close>. Floating-point numbers are not part of the model.
\<close>

datatype json =
    JNull
  | JBool bool
  | JInt int
  | JStr string
  | JArr "json list"
  | JObj "(string \<times> json) list"

type_synonym dict = "(string \<times> json) list"

text \<open>The exceptions the modelled code can raise.\<close>

datatype error =
    AttributeError
  | TypeError
  | KeyError
  | IndexError
  | HTTPError
  | ConnectionError
  | JSONDecodeError
  | OSError
  | ValueError

text \<open>Truth value of an object, as \<open>if x\<close>, \<open>x or y\<close> and \<open>not x\<close> test it.\<close>

fun truthy :: "json \<Rightarrow> bool" where
  "truthy JNull = False"
| "truthy (JBool b) = b"
| "truthy (JInt n) = (n \<noteq> 0)"
| "truthy (JStr s) = (s \<noteq> [])"
| "truthy (JArr xs) = (xs \<noteq> [])"
| "truthy (JObj kvs) = (kvs \<noteq> [])"

definition py_or :: "json \<Rightarrow> json \<Rightarrow> json" where
  \<comment> \<open>\<open>a or b\<close>\<close>
  "py_or a b = (if truthy a then a else b)"

definition dict_get :: "dict \<Rightarrow> string \<Rightarrow> json \<Rightarrow> json" where
  \<comment> \<open>\<open>d.get(k, dflt)\<close> on a dictionary\<close>
  "dict_get d k dflt = (case map_of d k of Some v \<Rightarrow> v | None \<Rightarrow> dflt)"

definition dict_index :: "dict \<Rightarrow> string \<Rightarrow> error + json" where
  \<comment> \<open>\<open>d[k]\<close> on a dictionary\<close>
  "dict_index d k = (case map_of d k of Some v \<Rightarrow> Inr v | None \<Rightarrow> Inl KeyError)"

fun py_get :: "json \<Rightarrow> string \<Rightarrow> json \<Rightarrow> error + json" where
  \<comment> \<open>\<open>x.get(k, dflt)\<close> on any object: only a dictionary has the method\<close>
  "py_get (JObj d) k dflt = Inr (dict_get d k dflt)"
| "py_get _ k dflt = Inl AttributeError"

fun py_iter :: "json \<Rightarrow> error + json list" where
  \<comment> \<open>the items a \<open>for\<close> loop over the object visits\<close>
  "py_iter (JArr xs) = Inr xs"
| "py_iter (JStr s) = Inr (map (\<lambda>c. JStr [c]) s)"
| "py_iter (JObj d) = Inr (map (\<lambda>kv. JStr (fst kv)) d)"
| "py_iter _ = Inl TypeError"

fun map_err :: "('a \<Rightarrow> error + 'b) \<Rightarrow> 'a list \<Rightarrow> error + 'b list" where
  \<comment> \<open>a loop that appends one result per item and stops at the first exception\<close>
  "map_err f [] = Inr []"
| "map_err f (x # xs) =
     (case f x of
        Inl e \<Rightarrow> Inl e
      | Inr y \<Rightarrow> (case map_err f xs of Inl e \<Rightarrow> Inl e | Inr ys \<Rightarrow> Inr (y # ys)))"

subsection \<open>\<open>str\<close> and \<open>repr\<close>\<close>

fun dec_digits :: "nat \<Rightarrow> string" where
  "dec_digits n =
     (if n < 10 then [char_of (48 + n)]
      else dec_digits (n div 10) @ [char_of (48 + n mod 10)])"

declare dec_digits.simps [simp del]

definition int_str :: "int \<Rightarrow> string" where
  "int_str i = (if i < 0 then CHR ''-'' # dec_digits (nat (- i)) else dec_digits (nat i))"

definition hex_digit :: "nat \<Rightarrow> char" where
  "hex_digit n = (if n < 10 then char_of (48 + n) else char_of (87 + n))"

definition printable :: "char \<Rightarrow> bool" where
  \<comment> \<open>\<open>str.isprintable\<close> on code points below 256\<close>
  "printable c =
     (let n = (of_char c :: nat) in (32 \<le> n \<and> n < 127) \<or> (161 \<le> n \<and> n \<noteq> 173))"

definition repr_char :: "char \<Rightarrow> char \<Rightarrow> string" where
  "repr_char q c =
     (if c = q \<or> c = CHR 0x5C then [CHR 0x5C, c]
      else if c = CHR 0x09 then [CHR 0x5C, CHR ''t'']
      else if c = CHR 0x0A then [CHR 0x5C, CHR ''n'']
      else if c = CHR 0x0D then [CHR 0x5C, CHR ''r'']
      else if printable c then [c]
      else [CHR 0x5C, CHR ''x'', hex_digit (of_char c div 16), hex_digit (of_char c mod 16)])"

definition repr_str :: "string \<Rightarrow> string" where
  "repr_str s =
     (let q = (if CHR 0x27 \<in> set s \<and> CHR 0x22 \<notin> set s then CHR 0x22 else CHR 0x27)
      in q # concat (map (repr_char q) s) @ [q])"

fun join :: "string \<Rightarrow> string list \<Rightarrow> string" where
  \<comment> \<open>\<open>sep.join(xs)\<close>\<close>
  "join sep [] = []"
| "join sep [x] = x"
| "join sep (x # y # ys) = x @ sep @ join sep (y # ys)"

primrec py_repr :: "json \<Rightarrow> string" where
  "py_repr JNull = ''None''"
| "py_repr (JBool b) = (if b then ''True'' else ''False'')"
| "py_repr (JInt i) = int_str i"
| "py_repr (JStr s) = repr_str s"
| "py_repr (JArr xs) = ''['' @ join '', '' (map py_repr xs) @ '']''"
| "py_repr (JObj kvs) =
     ''{'' @ join '', '' (map (\<lambda>kv. repr_str (fst kv) @ '': '' @ snd kv)
                              (map (map_prod id py_repr) kvs)) @ ''}''"

definition py_str :: "json \<Rightarrow> string" where
  \<comment> \<open>\<open>str(x)\<close>\<close>
  "py_str v = (case v of JStr s \<Rightarrow> s | _ \<Rightarrow> py_repr v)"

subsection \<open>String methods\<close>

definition lower_char :: "char \<Rightarrow> char" where
  "lower_char c =
     (let n = (of_char c :: nat)
      in if (65 \<le> n \<and> n \<le> 90) \<or> (192 \<le> n \<and> n \<le> 222 \<and> n \<noteq> 215)
         then char_of (n + 32) else c)"

definition lower :: "string \<Rightarrow> string" where
  \<comment> \<open>\<open>s.lower()\<close>\<close>
  "lower s = map lower_char s"

fun contains :: "string \<Rightarrow> string \<Rightarrow> bool" where
  \<comment> \<open>\<open>sub in s\<close>\<close>
  "contains sub [] = (sub = [])"
| "contains sub (c # cs) = (take (length sub) (c # cs) = sub \<or> contains sub cs)"

definition py_take :: "'a list \<Rightarrow> int \<Rightarrow> 'a list" where
  \<comment> \<open>the slice \<open>s[:n]\<close>; a negative \<open>n\<close> counts from the end\<close>
  "py_take s n = (if 0 \<le> n then take (nat n) s else take (nat (int (length s) + n)) s)"

definition strip_chars :: "string \<Rightarrow> string \<Rightarrow> string" where
  \<comment> \<open>\<open>s.strip(cs)\<close>\<close>
  "strip_chars cs s =
     rev (dropWhile (\<lambda>c. c \<in> set cs) (rev (dropWhile (\<lambda>c. c \<in> set cs) s)))"

definition rsplit1_head :: "string \<Rightarrow> string" where
  \<comment> \<open>\<open>s.rsplit(' ', 1)[0]\<close>: what precedes the last space, the whole string without one\<close>
  "rsplit1_head s =
     (if CHR '' '' \<in> set s then rev (tl (dropWhile (\<lambda>c. c \<noteq> CHR '' '') (rev s))) else s)"

section \<open>File names\<close>

definition invalid_chars :: "char list" where
  \<comment> \<open>the class \<open>[<>:"/\\|?*\r\n]\<close>\<close>
  "invalid_chars =
     [CHR ''<'', CHR ''>'', CHR '':'', CHR 0x22, CHR ''/'', CHR 0x5C, CHR ''|'', CHR ''?'',
      CHR ''*'', CHR 0x0D, CHR 0x0A]"

definition replace_invalid :: "string \<Rightarrow> string" where
  "replace_invalid s = map (\<lambda>c. if c \<in> set invalid_chars then CHR ''_'' else c) s"

definition whitespace_chars :: "char list" where
  \<comment> \<open>the code points below 256 that \<open>\\s\<close> matches in a \<open>str\<close> pattern\<close>
  "whitespace_chars =
     [CHR 0x09, CHR 0x0A, CHR 0x0B, CHR 0x0C, CHR 0x0D, CHR 0x1C, CHR 0x1D, CHR 0x1E,
      CHR 0x1F, CHR 0x20, CHR 0x85, CHR 0xA0]"

definition is_space :: "char \<Rightarrow> bool" where
  "is_space c = (c \<in> set whitespace_chars)"

function collapse_ws :: "string \<Rightarrow> string" where
  \<comment> \<open>\<open>re.sub(r'\\s+', ' ', s)\<close>: every maximal run of whitespace becomes one space\<close>
  "collapse_ws [] = []"
| "collapse_ws (c # cs) =
     (if is_space c then CHR '' '' # collapse_ws (dropWhile is_space cs)
      else c # collapse_ws cs)"
  by pat_completeness auto
termination
  by (relation "measure length") (auto simp: length_dropWhile_le less_Suc_eq_le)

definition safe_filename :: "string \<Rightarrow> int \<Rightarrow> string" where
  "safe_filename filename max_length =
     (if filename = [] then ''unknown''
      else
        let f1 = replace_invalid filename;
            f2 = collapse_ws f1;
            f3 = strip_chars '' ._'' f2;
            f4 = (if int (length f3) > max_length
                  then rsplit1_head (py_take f3 max_length) else f3)
        in if f4 = [] then ''unknown'' else f4)"

definition default_max_length :: int where
  "default_max_length = 180"


subsection \<open>The shape of a sanitized name\<close>

text \<open>
  Whitespace in normal form: every whitespace character is a plain space and no two of
  them are adjacent. This is what \<open>collapse_ws\<close> leaves behind.
\<close>

fun ws_norm :: "string \<Rightarrow> bool" where
  "ws_norm [] = True"
| "ws_norm [c] = (is_space c \<longrightarrow> c = CHR '' '')"
| "ws_norm (c # d # cs) =
     ((is_space c \<longrightarrow> c = CHR '' '' \<and> \<not> is_space d) \<and> ws_norm (d # cs))"

definition strip_set :: "char \<Rightarrow> bool" where
  \<comment> \<open>the characters \<open>strip(' ._')\<close> removes\<close>
  "strip_set c = (c \<in> set '' ._'')"

definition strip_end :: "string \<Rightarrow> string" where
  \<comment> \<open>\<open>strip\<close> at the right end only\<close>
  "strip_end r = rev (dropWhile strip_set (rev r))"

definition safe_form :: "string \<Rightarrow> bool" where
  "safe_form r =
     (set r \<inter> set invalid_chars = {} \<and> ws_norm r \<and> r \<noteq> [] \<and> \<not> strip_set (hd r) \<and>
      int (length r) \<le> default_max_length)"

section \<open>Normalizing a contribution\<close>

definition and_then :: "error + 'a \<Rightarrow> ('a \<Rightarrow> error + 'b) \<Rightarrow> error + 'b" where
  \<comment> \<open>sequencing: an exception ends the computation\<close>
  "and_then m f = (case m of Inl e \<Rightarrow> Inl e | Inr x \<Rightarrow> f x)"

definition person_info :: "json \<Rightarrow> error + json" where
  \<comment> \<open>the dictionary appended for one speaker or author\<close>
  "person_info person =
     and_then (py_get person ''fullName'' (JStr '''')) (\<lambda>name.
     and_then (py_get person ''first_name'' (JStr '''')) (\<lambda>first_name.
     and_then (py_get person ''last_name'' (JStr '''')) (\<lambda>last_name.
     and_then (py_get person ''affiliation'' (JStr '''')) (\<lambda>affiliation.
     and_then (py_get person ''id'' (JStr '''')) (\<lambda>ident.
     Inr (JObj [(''name'', name), (''first_name'', first_name), (''last_name'', last_name),
                (''affiliation'', affiliation), (''id'', ident)]))))))"

definition people :: "json \<Rightarrow> error + json list" where
  \<comment> \<open>one of the three loops over \<open>speakers\<close>, \<open>primaryauthors\<close>, \<open>coauthors\<close>\<close>
  "people v = and_then (py_iter v) (map_err person_info)"

definition attachment_info :: "json \<Rightarrow> error + json" where
  "attachment_info attachment =
     and_then (py_get attachment ''id'' (JStr '''')) (\<lambda>ident.
     and_then (py_get attachment ''title'' (JStr '''')) (\<lambda>title.
     and_then (py_get attachment ''filename'' (JStr '''')) (\<lambda>filename.
     and_then (py_get attachment ''download_url'' (JStr '''')) (\<lambda>download_url.
     and_then (py_get attachment ''content_type'' (JStr '''')) (\<lambda>content_type.
     and_then (py_get attachment ''size'' (JInt 0)) (\<lambda>sz.
     and_then (py_get attachment ''modified_dt'' (JStr '''')) (\<lambda>modified_dt.
     and_then (py_get attachment ''is_protected'' (JBool False)) (\<lambda>is_protected.
     Inr (JObj [(''id'', ident), (''title'', title), (''filename'', filename),
                (''download_url'', download_url), (''content_type'', content_type),
                (''size'', sz), (''modified_dt'', modified_dt),
                (''is_protected'', is_protected)])))))))))"

definition folder_attachments :: "json \<Rightarrow> error + json list" where
  \<comment> \<open>the inner loop over one folder's \<open>attachments\<close>\<close>
  "folder_attachments folder =
     and_then (py_get folder ''attachments'' (JArr [])) (\<lambda>atts.
     and_then (py_iter atts) (map_err attachment_info))"

definition all_attachments :: "json \<Rightarrow> error + json list" where
  \<comment> \<open>the outer loop over \<open>folders\<close>: folder order, then attachment order\<close>
  "all_attachments folders =
     and_then (py_iter folders) (\<lambda>fs.
     and_then (map_err folder_attachments fs) (\<lambda>xss. Inr (concat xss)))"

definition stringified :: "dict \<Rightarrow> string \<Rightarrow> json" where
  \<comment> \<open>\<open>str(contrib.get(k, '')) if contrib.get(k) else ''\<close>\<close>
  "stringified contrib k =
     (if truthy (dict_get contrib k JNull) then JStr (py_str (dict_get contrib k (JStr '''')))
      else JStr '''')"

definition parse_contribution :: "dict \<Rightarrow> error + dict" where
  "parse_contribution contrib =
     (let start_date_obj = py_or (dict_get contrib ''startDate'' JNull) (JObj []);
          end_date_obj = py_or (dict_get contrib ''endDate'' JNull) (JObj [])
      in
     and_then (py_get start_date_obj ''date'' (JStr '''')) (\<lambda>start_date.
     and_then (py_get start_date_obj ''time'' (JStr '''')) (\<lambda>start_time.
     and_then (py_get end_date_obj ''date'' (JStr '''')) (\<lambda>end_date.
     and_then (py_get end_date_obj ''time'' (JStr '''')) (\<lambda>end_time.
     and_then (people (dict_get contrib ''speakers'' (JArr []))) (\<lambda>speakers.
     and_then (people (dict_get contrib ''primaryauthors'' (JArr []))) (\<lambda>primary_authors.
     and_then (people (dict_get contrib ''coauthors'' (JArr []))) (\<lambda>coauthors.
     and_then (all_attachments (dict_get contrib ''folders'' (JArr []))) (\<lambda>attachments.
     Inr [(''id'', dict_get contrib ''id'' (JStr '''')),
          (''db_id'', dict_get contrib ''db_id'' (JStr '''')),
          (''friendly_id'', dict_get contrib ''friendly_id'' (JStr '''')),
          (''title'', dict_get contrib ''title'' (JStr '''')),
          (''type'', dict_get contrib ''type'' (JStr '''')),
          (''description'', dict_get contrib ''description'' (JStr '''')),
          (''start_date'', start_date),
          (''start_time'', start_time),
          (''end_date'', end_date),
          (''end_time'', end_time),
          (''duration'', dict_get contrib ''duration'' (JInt 0)),
          (''location'', dict_get contrib ''location'' (JStr '''')),
          (''room'', dict_get contrib ''room'' (JStr '''')),
          (''url'', dict_get contrib ''url'' (JStr '''')),
          (''session'', stringified contrib ''session''),
          (''track'', stringified contrib ''track''),
          (''board_number'', dict_get contrib ''board_number'' (JStr '''')),
          (''code'', dict_get contrib ''code'' (JStr '''')),
          (''speakers'', JArr speakers),
          (''primary_authors'', JArr primary_authors),
          (''coauthors'', JArr coauthors),
          (''attachments'', JArr attachments),
          (''attachment_count'', JInt (int (length attachments))),
          (''keywords'', dict_get contrib ''keywords'' (JArr []))])))))))))"

subsection \<open>The raw records the normalizer is written for\<close>

text \<open>
  A raw contribution record is a dictionary in which every key may be missing. Where a
  key is present, the code relies on the shape of three kinds of value only:
  \<open>startDate\<close> and \<open>endDate\<close> are dictionaries (or empty, or \<open>None\<close>), the people lists
  are lists of dictionaries, and \<open>folders\<close> is a list of dictionaries whose
  \<open>attachments\<close> are lists of dictionaries. Every other value is copied as it is.
\<close>

fun is_obj :: "json \<Rightarrow> bool" where
  "is_obj (JObj d) = True"
| "is_obj _ = False"

fun obj_list :: "json \<Rightarrow> bool" where
  "obj_list (JArr xs) = list_all is_obj xs"
| "obj_list _ = False"

fun folder_shape :: "json \<Rightarrow> bool" where
  "folder_shape (JObj d) = obj_list (dict_get d ''attachments'' (JArr []))"
| "folder_shape _ = False"

fun folder_list :: "json \<Rightarrow> bool" where
  "folder_list (JArr fs) = list_all folder_shape fs"
| "folder_list _ = False"

definition date_shape :: "json \<Rightarrow> bool" where
  "date_shape v = (\<not> truthy v \<or> is_obj v)"

definition raw_record :: "dict \<Rightarrow> bool" where
  "raw_record contrib =
     (date_shape (dict_get contrib ''startDate'' JNull) \<and>
      date_shape (dict_get contrib ''endDate'' JNull) \<and>
      obj_list (dict_get contrib ''speakers'' (JArr [])) \<and>
      obj_list (dict_get contrib ''primaryauthors'' (JArr [])) \<and>
      obj_list (dict_get contrib ''coauthors'' (JArr [])) \<and>
      folder_list (dict_get contrib ''folders'' (JArr [])))"

text \<open>
  The defaults, as a table: normalized key, raw key it is read from, value when the raw
  key is missing.
\<close>

definition contribution_defaults :: "(string \<times> string \<times> json) list" where
  "contribution_defaults =
     [(''id'', ''id'', JStr ''''),
      (''db_id'', ''db_id'', JStr ''''),
      (''friendly_id'', ''friendly_id'', JStr ''''),
      (''title'', ''title'', JStr ''''),
      (''type'', ''type'', JStr ''''),
      (''description'', ''description'', JStr ''''),
      (''start_date'', ''startDate'', JStr ''''),
      (''start_time'', ''startDate'', JStr ''''),
      (''end_date'', ''endDate'', JStr ''''),
      (''end_time'', ''endDate'', JStr ''''),
      (''duration'', ''duration'', JInt 0),
      (''location'', ''location'', JStr ''''),
      (''room'', ''room'', JStr ''''),
      (''url'', ''url'', JStr ''''),
      (''session'', ''session'', JStr ''''),
      (''track'', ''track'', JStr ''''),
      (''board_number'', ''board_number'', JStr ''''),
      (''code'', ''code'', JStr ''''),
      (''speakers'', ''speakers'', JArr []),
      (''primary_authors'', ''primaryauthors'', JArr []),
      (''coauthors'', ''coauthors'', JArr []),
      (''attachments'', ''folders'', JArr []),
      (''attachment_count'', ''folders'', JInt 0),
      (''keywords'', ''keywords'', JArr [])]"

definition person_defaults :: "(string \<times> string \<times> json) list" where
  "person_defaults =
     [(''name'', ''fullName'', JStr ''''),
      (''first_name'', ''first_name'', JStr ''''),
      (''last_name'', ''last_name'', JStr ''''),
      (''affiliation'', ''affiliation'', JStr ''''),
      (''id'', ''id'', JStr '''')]"

definition attachment_defaults :: "(string \<times> string \<times> json) list" where
  "attachment_defaults =
     [(''id'', ''id'', JStr ''''),
      (''title'', ''title'', JStr ''''),
      (''filename'', ''filename'', JStr ''''),
      (''download_url'', ''download_url'', JStr ''''),
      (''content_type'', ''content_type'', JStr ''''),
      (''size'', ''size'', JInt 0),
      (''modified_dt'', ''modified_dt'', JStr ''''),
      (''is_protected'', ''is_protected'', JBool False)]"

definition defaulted :: "(string \<times> string \<times> json) list \<Rightarrow> dict \<Rightarrow> dict \<Rightarrow> bool" where
  \<comment> \<open>the output has every key of the table, with the table's value where the raw key is missing\<close>
  "defaulted table raw out =
     (map fst out = map fst table \<and>
      list_all (\<lambda>row. map_of raw (fst (snd row)) = None
                        \<longrightarrow> map_of out (fst row) = Some (snd (snd row))) table)"

definition carried :: "(string \<times> string \<times> json) list \<Rightarrow> dict \<Rightarrow> dict \<Rightarrow> bool" where
  \<comment> \<open>each key of the table holds the value of its raw key, or the table's value without one\<close>
  "carried table raw out =
     list_all (\<lambda>row. map_of out (fst row) =
                        Some (dict_get raw (fst (snd row)) (snd (snd row)))) table"

definition contribution_copied :: "(string \<times> string \<times> json) list" where
  \<comment> \<open>the keys whose values are copied as they are\<close>
  "contribution_copied =
     [(''id'', ''id'', JStr ''''),
      (''db_id'', ''db_id'', JStr ''''),
      (''friendly_id'', ''friendly_id'', JStr ''''),
      (''title'', ''title'', JStr ''''),
      (''type'', ''type'', JStr ''''),
      (''description'', ''description'', JStr ''''),
      (''duration'', ''duration'', JInt 0),
      (''location'', ''location'', JStr ''''),
      (''room'', ''room'', JStr ''''),
      (''url'', ''url'', JStr ''''),
      (''board_number'', ''board_number'', JStr ''''),
      (''code'', ''code'', JStr ''''),
      (''keywords'', ''keywords'', JArr [])]"

fun person_rel :: "json \<Rightarrow> json \<Rightarrow> bool" where
  \<comment> \<open>the second is the five-key form of the first\<close>
  "person_rel (JObj d) (JObj p) =
     (map fst p = map fst person_defaults \<and> carried person_defaults d p)"
| "person_rel _ _ = False"

fun attachment_rel :: "json \<Rightarrow> json \<Rightarrow> bool" where
  \<comment> \<open>the second is the eight-key form of the first\<close>
  "attachment_rel (JObj d) (JObj a) =
     (map fst a = map fst attachment_defaults \<and> carried attachment_defaults d a)"
| "attachment_rel _ _ = False"

fun items :: "json \<Rightarrow> json list" where
  "items (JArr xs) = xs"
| "items _ = []"

fun folder_items :: "json \<Rightarrow> json list" where
  "folder_items (JObj d) = items (dict_get d ''attachments'' (JArr []))"
| "folder_items _ = []"

section \<open>Classification\<close>

datatype category = Oral | Poster | Other

definition contrib_type :: "dict \<Rightarrow> error + string" where
  \<comment> \<open>\<open>(parsed.get('type') or '').lower()\<close>: only a string has the method\<close>
  "contrib_type parsed =
     (case py_or (dict_get parsed ''type'' JNull) (JStr '''') of
        JStr s \<Rightarrow> Inr (lower s)
      | _ \<Rightarrow> Inl AttributeError)"

definition category_of :: "string \<Rightarrow> category" where
  "category_of t =
     (if contains ''oral'' t \<or> contains ''talk'' t then Oral
      else if contains ''poster'' t then Poster
      else Other)"

record stats =
  total_contributions :: nat
  oral_presentations :: nat
  posters :: nat
  downloaded_files :: nat
  errors :: nat
  sessions_processed :: nat

record grouping =
  oral_contributions :: "dict list"
  poster_contributions :: "dict list"
  other_contributions :: "dict list"
  counters :: stats

definition classify_step :: "json \<Rightarrow> grouping \<Rightarrow> error + grouping" where
  \<comment> \<open>one turn of the loop of \<open>process_contributions\<close>\<close>
  "classify_step contrib g =
     and_then (case contrib of JObj d \<Rightarrow> parse_contribution d | _ \<Rightarrow> Inl AttributeError)
       (\<lambda>parsed.
     and_then (contrib_type parsed) (\<lambda>t.
     let g' =
       (case category_of t of
          Oral \<Rightarrow> g\<lparr>oral_contributions := oral_contributions g @ [parsed],
                    counters := (counters g)\<lparr>oral_presentations :=
                                  Suc (oral_presentations (counters g))\<rparr>\<rparr>
        | Poster \<Rightarrow> g\<lparr>poster_contributions := poster_contributions g @ [parsed],
                    counters := (counters g)\<lparr>posters := Suc (posters (counters g))\<rparr>\<rparr>
        | Other \<Rightarrow> g\<lparr>other_contributions := other_contributions g @ [parsed]\<rparr>)
     in Inr (g'\<lparr>counters := (counters g')\<lparr>total_contributions :=
                                  Suc (total_contributions (counters g'))\<rparr>\<rparr>)))"

fun classify_all :: "json list \<Rightarrow> grouping \<Rightarrow> error + grouping" where
  \<comment> \<open>the loop; an exception is logged and raised again, which ends the run\<close>
  "classify_all [] g = Inr g"
| "classify_all (contrib # rest) g = and_then (classify_step contrib g) (classify_all rest)"

definition empty_grouping :: "stats \<Rightarrow> grouping" where
  "empty_grouping s =
     \<lparr>oral_contributions = [], poster_contributions = [], other_contributions = [],
      counters = s\<rparr>"

text \<open>
  The category of a normalized contribution whose \<open>type\<close> is a label (or empty, or
  \<open>None\<close>, or missing); \<open>None\<close> where the code raises.
\<close>

definition category_of_contribution :: "dict \<Rightarrow> category option" where
  "category_of_contribution parsed =
     (case contrib_type parsed of Inl e \<Rightarrow> None | Inr t \<Rightarrow> Some (category_of t))"

definition type_label :: "dict \<Rightarrow> bool" where
  \<comment> \<open>the \<open>type\<close> of the contribution is a string, or empty, \<open>None\<close> or missing\<close>
  "type_label parsed =
     (case dict_get parsed ''type'' JNull of JStr s \<Rightarrow> True | v \<Rightarrow> \<not> truthy v)"

definition normalized :: "json \<Rightarrow> dict \<Rightarrow> bool" where
  \<comment> \<open>\<open>parsed\<close> is what the normalizer returns for the raw item\<close>
  "normalized raw parsed = (case raw of JObj d \<Rightarrow> parse_contribution d = Inr parsed | _ \<Rightarrow> False)"

definition initial_stats :: stats where
  \<comment> \<open>the counters as the constructor sets them\<close>
  "initial_stats =
     \<lparr>total_contributions = 0, oral_presentations = 0, posters = 0, downloaded_files = 0,
      errors = 0, sessions_processed = 0\<rparr>"

definition parsed_of :: "json \<Rightarrow> dict" where
  \<comment> \<open>the normalized form of a raw item, for writing examples; empty where the normalizer raises\<close>
  "parsed_of raw =
     (case raw of
        JObj d \<Rightarrow> (case parse_contribution d of Inr p \<Rightarrow> p | Inl e \<Rightarrow> [])
      | _ \<Rightarrow> [])"

section \<open>The scraper and its surroundings\<close>

text \<open>
  The state holds the fields of the scraper object that the modelled methods touch, the log
  it writes, the files and directories on disk and the requests sent so far. The disk is
  a POSIX file system without symbolic links, on which an operation fails only for the
  reasons written out below; its entries are named by their absolute paths, lists of
  components from the root down. The network is a function from the requested
  URL to the outcome of the request. A log line keeps its level and its text, with the
  name of the exception where the source prints the exception.
\<close>

datatype level = LInfo | LError

type_synonym path = "string list"

record response =
  status_code :: nat
  json_body :: "json option"
  chunks :: "string list"
  broken :: bool

type_synonym network = "json \<Rightarrow> error + response"

record scraper =
  output_dir :: string
  cwd :: path
  api_url :: string
  event_data :: json
  contributions :: json
  stats :: stats
  log_lines :: "(level \<times> string) list"
  files :: "path \<rightharpoonup> string"
  dirs :: "path set"
  requests :: "json list"

definition error_name :: "error \<Rightarrow> string" where
  "error_name e =
     (case e of
        AttributeError \<Rightarrow> ''AttributeError''
      | TypeError \<Rightarrow> ''TypeError''
      | KeyError \<Rightarrow> ''KeyError''
      | IndexError \<Rightarrow> ''IndexError''
      | HTTPError \<Rightarrow> ''HTTPError''
      | ConnectionError \<Rightarrow> ''ConnectionError''
      | JSONDecodeError \<Rightarrow> ''JSONDecodeError''
      | OSError \<Rightarrow> ''OSError''
      | ValueError \<Rightarrow> ''ValueError'')"

definition log_info :: "string \<Rightarrow> scraper \<Rightarrow> scraper" where
  "log_info msg st = st\<lparr>log_lines := log_lines st @ [(LInfo, msg)]\<rparr>"

definition log_error :: "string \<Rightarrow> scraper \<Rightarrow> scraper" where
  "log_error msg st = st\<lparr>log_lines := log_lines st @ [(LError, msg)]\<rparr>"

definition count_error :: "scraper \<Rightarrow> scraper" where
  \<comment> \<open>\<open>self.stats['errors'] += 1\<close>\<close>
  "count_error st = st\<lparr>stats := (stats st)\<lparr>errors := Suc (errors (stats st))\<rparr>\<rparr>"

definition raise_for_status :: "response \<Rightarrow> error + response" where
  "raise_for_status resp =
     (if 400 \<le> status_code resp \<and> status_code resp < 600 then Inl HTTPError else Inr resp)"

subsection \<open>Fetching the event\<close>

fun py_gt0 :: "json \<Rightarrow> error + bool" where
  \<comment> \<open>\<open>x > 0\<close>: numbers compare, anything else raises\<close>
  "py_gt0 (JInt i) = Inr (0 < i)"
| "py_gt0 (JBool b) = Inr b"
| "py_gt0 _ = Inl TypeError"

fun py_first :: "json \<Rightarrow> error + json" where
  \<comment> \<open>\<open>x[0]\<close>; the keys of a parsed dictionary are strings, so \<open>0\<close> is never one\<close>
  "py_first (JArr []) = Inl IndexError"
| "py_first (JArr (x # xs)) = Inr x"
| "py_first (JStr []) = Inl IndexError"
| "py_first (JStr (c # cs)) = Inr (JStr [c])"
| "py_first (JObj d) = Inl KeyError"
| "py_first _ = Inl TypeError"

fun py_len :: "json \<Rightarrow> error + nat" where
  \<comment> \<open>\<open>len(x)\<close>\<close>
  "py_len (JArr xs) = Inr (length xs)"
| "py_len (JStr s) = Inr (length s)"
| "py_len (JObj d) = Inr (length d)"
| "py_len _ = Inl TypeError"

definition fetch_failed :: "error \<Rightarrow> scraper \<Rightarrow> bool \<times> scraper" where
  \<comment> \<open>the \<open>except\<close> branch\<close>
  "fetch_failed e st =
     (False, count_error (log_error (''Failed to fetch event data: '' @ error_name e) st))"

definition fetch_event_data :: "network \<Rightarrow> scraper \<Rightarrow> bool \<times> scraper" where
  "fetch_event_data net st0 =
     (let st1 = log_info (''Fetching event data from: '' @ api_url st0) st0;
          st2 = st1\<lparr>requests := requests st1 @ [JStr (api_url st1)]\<rparr>
      in
      case and_then (net (JStr (api_url st0))) raise_for_status of
        Inl e \<Rightarrow> fetch_failed e st2
      | Inr resp \<Rightarrow>
     (case json_body resp of
        None \<Rightarrow> fetch_failed JSONDecodeError st2
      | Some data \<Rightarrow>
     (case and_then (py_get data ''count'' (JInt 0)) py_gt0 of
        Inl e \<Rightarrow> fetch_failed e st2
      | Inr positive \<Rightarrow>
      if positive \<and> (case data of JObj d \<Rightarrow> map_of d ''results'' \<noteq> None | _ \<Rightarrow> False)
      then
       (case and_then (py_get data ''results'' JNull) py_first of
          Inl e \<Rightarrow> fetch_failed e st2
        | Inr ev \<Rightarrow>
       let st3 = st2\<lparr>event_data := ev\<rparr> in
       (case py_get ev ''contributions'' (JArr []) of
          Inl e \<Rightarrow> fetch_failed e st3
        | Inr cs \<Rightarrow>
       let st4 = st3\<lparr>contributions := cs\<rparr>;
           st5 = log_info ''Successfully fetched event data'' st4
       in
       (case py_get ev ''title'' (JStr ''Unknown'') of
          Inl e \<Rightarrow> fetch_failed e st5
        | Inr title \<Rightarrow>
       let st6 = log_info (''Event: '' @ py_str title) st5 in
       (case py_len cs of
          Inl e \<Rightarrow> fetch_failed e st6
        | Inr n \<Rightarrow> (True, log_info (''Total contributions: '' @ int_str (int n)) st6)))))
      else (False, log_error ''No event data found in API response'' st2))))"

subsection \<open>Naming and downloading an attachment\<close>

definition safe_filename_of :: "json \<Rightarrow> error + string" where
  \<comment> \<open>\<open>self.safe_filename(x)\<close> on any object: a false one is \<open>unknown\<close>, \<open>re.sub\<close> wants a string\<close>
  "safe_filename_of v =
     (if \<not> truthy v then Inr ''unknown''
      else case v of JStr s \<Rightarrow> Inr (safe_filename s default_max_length) | _ \<Rightarrow> Inl TypeError)"

definition folder_contrib_id :: "dict \<Rightarrow> json" where
  \<comment> \<open>\<open>contrib_info.get('friendly_id', contrib_info.get('id', 'unknown'))\<close>\<close>
  "folder_contrib_id contrib_info =
     dict_get contrib_info ''friendly_id'' (dict_get contrib_info ''id'' (JStr ''unknown''))"

definition folder_name :: "dict \<Rightarrow> error + string" where
  "folder_name contrib_info =
     and_then (dict_index contrib_info ''title'') (\<lambda>title.
     and_then (safe_filename_of title) (\<lambda>safe_title.
     Inr (py_str (folder_contrib_id contrib_info) @ '' - '' @ safe_title)))"

definition target_filename :: "dict \<Rightarrow> error + string" where
  \<comment> \<open>\<open>self.safe_filename(attachment.get('filename', attachment.get('title', 'attachment')))\<close>\<close>
  "target_filename attachment =
     safe_filename_of
       (dict_get attachment ''filename'' (dict_get attachment ''title'' (JStr ''attachment'')))"

text \<open>
  A \<open>pathlib\<close> path: whether it starts at the root, and its components. Parsing a
  string splits it at \<open>/\<close> and drops the empty components and the components \<open>.\<close>;
  \<open>..\<close> stays, for the file system to follow.
\<close>

type_synonym pure_path = "bool \<times> string list"

fun split_on :: "char \<Rightarrow> string \<Rightarrow> string list" where
  \<comment> \<open>\<open>s.split(sep)\<close>\<close>
  "split_on sep [] = [[]]"
| "split_on sep (c # cs) =
     (if c = sep then [] # split_on sep cs
      else (case split_on sep cs of [] \<Rightarrow> [[c]] | w # ws \<Rightarrow> (c # w) # ws))"

definition parse_path :: "string \<Rightarrow> pure_path" where
  \<comment> \<open>\<open>Path(s)\<close>\<close>
  "parse_path s =
     (s \<noteq> [] \<and> hd s = CHR ''/'',
      filter (\<lambda>c. c \<noteq> [] \<and> c \<noteq> ''.'') (split_on CHR ''/'' s))"

definition join_path :: "pure_path \<Rightarrow> string \<Rightarrow> pure_path" where
  \<comment> \<open>\<open>p / s\<close>: a string that starts at the root replaces \<open>p\<close>\<close>
  "join_path p s =
     (let q = parse_path s in if fst q then q else (fst p, snd p @ snd q))"

definition has_nul :: "pure_path \<Rightarrow> bool" where
  \<comment> \<open>a NUL character in a path makes every system call on it raise \<open>ValueError\<close>\<close>
  "has_nul p = list_ex (\<lambda>c. CHR 0x00 \<in> set c) (snd p)"

definition is_dir :: "scraper \<Rightarrow> path \<Rightarrow> bool" where
  \<comment> \<open>the root and the working directory are directories\<close>
  "is_dir st q = (q = [] \<or> q = cwd st \<or> q \<in> dirs st)"

definition start_of :: "scraper \<Rightarrow> pure_path \<Rightarrow> path" where
  "start_of st p = (if fst p then [] else cwd st)"

fun walk :: "scraper \<Rightarrow> path \<Rightarrow> string list \<Rightarrow> path option" where
  \<comment> \<open>where the file system arrives from \<open>cur\<close> along the components; each step leaves a directory\<close>
  "walk st cur [] = Some cur"
| "walk st cur (c # cs) =
     (if \<not> is_dir st cur then None
      else walk st (if c = ''..'' then butlast cur else cur @ [c]) cs)"

definition path_exists :: "pure_path \<Rightarrow> scraper \<Rightarrow> bool" where
  \<comment> \<open>\<open>p.exists()\<close>\<close>
  "path_exists p st =
     (\<not> has_nul p \<and>
      (case walk st (start_of st p) (snd p) of
         None \<Rightarrow> False
       | Some q \<Rightarrow> is_dir st q \<or> files st q \<noteq> None))"

fun make_dirs :: "path \<Rightarrow> string list \<Rightarrow> scraper \<Rightarrow> error + scraper" where
  \<comment> \<open>the directories \<open>mkdir\<close> passes or creates, from the existing directory \<open>cur\<close> on\<close>
  "make_dirs cur [] st = Inr st"
| "make_dirs cur (c # cs) st =
     (if c = ''..'' then make_dirs (butlast cur) cs st
      else if is_dir st (cur @ [c]) then make_dirs (cur @ [c]) cs st
      else if files st (cur @ [c]) \<noteq> None then Inl OSError
      else make_dirs (cur @ [c]) cs (st\<lparr>dirs := insert (cur @ [c]) (dirs st)\<rparr>))"

definition mkdir_parents :: "pure_path \<Rightarrow> scraper \<Rightarrow> error + scraper" where
  \<comment> \<open>\<open>p.mkdir(exist_ok=True, parents=True)\<close>: fails where a file is in the way\<close>
  "mkdir_parents p st =
     (if has_nul p then Inl ValueError else make_dirs (start_of st p) (snd p) st)"

definition write_file :: "pure_path \<Rightarrow> string \<Rightarrow> scraper \<Rightarrow> error + scraper" where
  \<comment> \<open>\<open>open(p, 'wb')\<close> and the writes that follow\<close>
  "write_file p content st =
     (if has_nul p then Inl ValueError
      else case walk st (start_of st p) (snd p) of
             None \<Rightarrow> Inl OSError
           | Some q \<Rightarrow> if is_dir st q then Inl OSError
                        else Inr (st\<lparr>files := (files st)(q \<mapsto> content)\<rparr>))"

definition target_dir_of :: "scraper \<Rightarrow> string \<Rightarrow> string \<Rightarrow> pure_path" where
  \<comment> \<open>\<open>self.output_dir / category_folder / folder_name\<close>\<close>
  "target_dir_of st category_folder name =
     join_path (join_path (parse_path (output_dir st)) category_folder) name"

definition download_body ::
  "network \<Rightarrow> dict \<Rightarrow> dict \<Rightarrow> string \<Rightarrow> scraper \<Rightarrow> (error + bool) \<times> scraper" where
  \<comment> \<open>the \<open>try\<close> block: what it returns or raises, and the state it leaves\<close>
  "download_body net attachment contrib_info category_folder st =
     (case dict_index attachment ''download_url'' of
        Inl e \<Rightarrow> (Inl e, st)
      | Inr download_url \<Rightarrow>
     (case folder_name contrib_info of
        Inl e \<Rightarrow> (Inl e, st)
      | Inr name \<Rightarrow>
     let target_dir = target_dir_of st category_folder name in
     (case mkdir_parents target_dir st of
        Inl e \<Rightarrow> (Inl e, st)
      | Inr st1 \<Rightarrow>
     (case target_filename attachment of
        Inl e \<Rightarrow> (Inl e, st1)
      | Inr safe_name \<Rightarrow>
     let filepath = join_path target_dir safe_name in
     if path_exists filepath st1
     then (Inr True, log_info (''File already exists, skipping: '' @ safe_name) st1)
     else
       let st2 = log_info (''Downloading: '' @ safe_name) st1;
           st3 = st2\<lparr>requests := requests st2 @ [download_url]\<rparr>
       in
       (case and_then (net download_url) raise_for_status of
          Inl e \<Rightarrow> (Inl e, st3)
        | Inr resp \<Rightarrow>
       (case write_file filepath (concat (chunks resp)) st3 of
          Inl e \<Rightarrow> (Inl e, st3)
        | Inr st4 \<Rightarrow>
       if broken resp then (Inl ConnectionError, st4)
       else
         let st5 = log_info (''Downloaded: '' @ safe_name @ '' ('' @
                       int_str (int (length (concat (chunks resp)))) @ '' bytes)'') st4
         in (Inr True,
             st5\<lparr>stats := (stats st5)\<lparr>downloaded_files :=
                              Suc (downloaded_files (stats st5))\<rparr>\<rparr>)))))))"

definition download_attachment ::
  "network \<Rightarrow> dict \<Rightarrow> dict \<Rightarrow> string \<Rightarrow> scraper \<Rightarrow> bool \<times> scraper" where
  "download_attachment net attachment contrib_info category_folder st =
     (case download_body net attachment contrib_info category_folder st of
        (Inr ok, st') \<Rightarrow> (ok, st')
      | (Inl e, st') \<Rightarrow>
          (False,
           count_error
             (log_error (''Failed to download '' @
                 py_str (dict_get attachment ''filename'' (JStr ''attachment'')) @ '': '' @
                 error_name e) st')))"

subsection \<open>Progress and report lines\<close>

definition short_title :: "json \<Rightarrow> error + string" where
  \<comment> \<open>\<open>t[:60] + '...' if len(t) > 60 else t\<close>, as the log line prints it\<close>
  "short_title t =
     and_then (py_len t) (\<lambda>n.
       if 60 < n then (case t of JStr s \<Rightarrow> Inr (take 60 s @ ''...'') | _ \<Rightarrow> Inl TypeError)
       else Inr (py_str t))"

definition progress_line :: "nat \<Rightarrow> nat \<Rightarrow> dict \<Rightarrow> error + string" where
  \<comment> \<open>the line \<open>_process_contribution_list\<close> logs for item \<open>i\<close> of \<open>n\<close>\<close>
  "progress_line i n contrib =
     (let contrib_id = dict_get contrib ''friendly_id'' (dict_get contrib ''id'' (JStr ''unknown''))
      in
      and_then (dict_index contrib ''title'') (\<lambda>t.
      and_then (short_title t) (\<lambda>title.
      Inr (''  ['' @ int_str (int i) @ ''/'' @ int_str (int n) @ ''] '' @ py_str contrib_id @
           '': '' @ title))))"

definition summary_heading :: "dict \<Rightarrow> nat \<Rightarrow> error + string" where
  \<comment> \<open>the first line \<open>_write_contribution_summary\<close> writes\<close>
  "summary_heading contrib index =
     (let ident = dict_get contrib ''friendly_id'' (dict_get contrib ''id'' (JStr ''N/A'')) in
      and_then (dict_index contrib ''title'') (\<lambda>title.
      Inr (int_str (int index) @ ''. ['' @ py_str ident @ ''] '' @ py_str title @ [CHR 0x0A])))"

section \<open>Exports\<close>

definition all_contributions_document ::
  "json \<Rightarrow> dict list \<Rightarrow> dict list \<Rightarrow> dict list \<Rightarrow> string \<Rightarrow> error + json" where
  \<comment> \<open>the object \<open>save_all_contributions_data\<close> hands to \<open>json.dump\<close>; \<open>now\<close> is the time stamp\<close>
  "all_contributions_document ev oral posters_list others now =
     (let all_contributions = oral @ posters_list @ others in
      and_then (py_get ev ''title'' (JStr '''')) (\<lambda>title.
      and_then (py_get ev ''id'' (JStr '''')) (\<lambda>ident.
      and_then (py_get ev ''startDate'' (JObj [])) (\<lambda>start_date.
      and_then (py_get ev ''endDate'' (JObj [])) (\<lambda>end_date.
      and_then (py_get ev ''location'' (JStr '''')) (\<lambda>location.
      and_then (py_get ev ''url'' (JStr '''')) (\<lambda>url.
      Inr (JObj
        [(''event_info'', JObj
            [(''title'', title), (''id'', ident), (''start_date'', start_date),
             (''end_date'', end_date), (''location'', location), (''url'', url)]),
         (''statistics'', JObj
            [(''total_contributions'', JInt (int (length all_contributions))),
             (''oral_presentations'', JInt (int (length oral))),
             (''posters'', JInt (int (length posters_list))),
             (''others'', JInt (int (length others)))]),
         (''contributions'', JObj
            [(''oral_presentations'', JArr (map JObj oral)),
             (''posters'', JArr (map JObj posters_list)),
             (''others'', JArr (map JObj others))]),
         (''scrape_time'', JStr now)]))))))))"

subsection \<open>Grouping by date\<close>

text \<open>
  \<open>by_date\<close> is a dictionary keyed by the \<open>start_date\<close> values, kept here as the list of
  its items in insertion order. A list or a dictionary cannot be a key; \<open>True\<close> and
  \<open>1\<close>, \<open>False\<close> and \<open>0\<close> are the same key.
\<close>

fun hashable :: "json \<Rightarrow> bool" where
  "hashable (JArr xs) = False"
| "hashable (JObj d) = False"
| "hashable _ = True"

fun number_of :: "json \<Rightarrow> int option" where
  "number_of (JInt i) = Some i"
| "number_of (JBool b) = Some (if b then 1 else 0)"
| "number_of _ = None"

definition key_eq :: "json \<Rightarrow> json \<Rightarrow> bool" where
  "key_eq a b =
     (case (number_of a, number_of b) of
        (Some x, Some y) \<Rightarrow> x = y
      | (None, None) \<Rightarrow> a = b
      | _ \<Rightarrow> False)"

fun bucket_append :: "json \<Rightarrow> dict \<Rightarrow> (json \<times> dict list) list \<Rightarrow> (json \<times> dict list) list" where
  \<comment> \<open>\<open>if date not in by_date: by_date[date] = []\<close>, then \<open>by_date[date].append(contrib)\<close>\<close>
  "bucket_append date contrib [] = [(date, [contrib])]"
| "bucket_append date contrib ((k, cs) # rest) =
     (if key_eq date k then (k, cs @ [contrib]) # rest
      else (k, cs) # bucket_append date contrib rest)"

fun group_by_date ::
  "dict list \<Rightarrow> (json \<times> dict list) list \<Rightarrow> error + (json \<times> dict list) list" where
  "group_by_date [] by_date = Inr by_date"
| "group_by_date (contrib # rest) by_date =
     (let date = dict_get contrib ''start_date'' (JStr ''Unknown'')
      in if hashable date then group_by_date rest (bucket_append date contrib by_date)
         else Inl TypeError)"

definition date_str :: "json \<Rightarrow> error + string" where
  \<comment> \<open>\<open>date.replace('/', '-')\<close>, the name of the bucket's directory\<close>
  "date_str date =
     (case date of
        JStr s \<Rightarrow> Inr (map (\<lambda>c. if c = CHR ''/'' then CHR ''-'' else c) s)
      | _ \<Rightarrow> Inl AttributeError)"

definition bucket_of :: "json \<Rightarrow> (json \<times> dict list) list \<Rightarrow> dict list option" where
  \<comment> \<open>\<open>by_date[key]\<close>, \<open>None\<close> where the key is missing\<close>
  "bucket_of key by_date = map_option snd (find (\<lambda>kv. key_eq key (fst kv)) by_date)"

subsection \<open>A scraper as the constructor leaves it\<close>

definition initial_scraper :: scraper where
  \<comment> \<open>default arguments, started in \<open>/work\<close> on a disk that held nothing else before\<close>
  "initial_scraper =
     \<lparr>output_dir = ''LLRF2025_Data'',
      cwd = [''work''],
      api_url = ''https://indico.jlab.org/export/event/939.json?detail=contributions'',
      event_data = JNull,
      contributions = JArr [],
      stats = initial_stats,
      log_lines = [(LInfo, ''Created output directory: LLRF2025_Data'')],
      files = Map.empty,
      dirs = {[''work''],
              [''work'', ''LLRF2025_Data''],
              [''work'', ''LLRF2025_Data'', ''Attachments''],
              [''work'', ''LLRF2025_Data'', ''Oral_Presentations''],
              [''work'', ''LLRF2025_Data'', ''Posters''],
              [''work'', ''LLRF2025_Data'', ''Sessions''],
              [''work'', ''LLRF2025_Data'', ''By_Date'']},
      requests = []\<rparr>"

definition respond :: "json \<Rightarrow> response" where
  \<comment> \<open>a 200 response whose body is the given JSON value\<close>
  "respond v = \<lparr>status_code = 200, json_body = Some v, chunks = [], broken = False\<rparr>"


section \<open>Properties of \<open>safe_filename\<close>\<close>

lemma invalid_underscore: "CHR ''_'' \<notin> set invalid_chars"
  by (simp add: invalid_chars_def)

lemma invalid_space: "CHR '' '' \<notin> set invalid_chars"
  by (simp add: invalid_chars_def)

lemma is_space_space: "is_space CHR '' ''"
  by (simp add: is_space_def whitespace_chars_def)

lemma set_replace_invalid: "set (replace_invalid s) \<inter> set invalid_chars = {}"
  using invalid_underscore by (auto simp: replace_invalid_def)

lemma replace_invalid_id: "set s \<inter> set invalid_chars = {} \<Longrightarrow> replace_invalid s = s"
  unfolding replace_invalid_def by (rule map_idI) auto

lemma set_collapse_ws: "set (collapse_ws s) \<subseteq> insert CHR '' '' (set s)"
proof (induction s rule: collapse_ws.induct)
  case 1
  then show ?case by simp
next
  case (2 c cs)
  show ?case
  proof (cases "is_space c")
    case True
    with 2 show ?thesis by (auto dest: set_dropWhileD)
  next
    case False
    with 2 show ?thesis by auto
  qed
qed

lemma collapse_ws_hd: "collapse_ws s \<noteq> [] \<Longrightarrow> is_space (hd (collapse_ws s)) \<Longrightarrow> hd (collapse_ws s) = CHR '' ''"
  by (cases s) (auto split: if_splits)

lemma collapse_ws_hd_dropWhile:
  "collapse_ws (dropWhile is_space cs) \<noteq> [] \<Longrightarrow> \<not> is_space (hd (collapse_ws (dropWhile is_space cs)))"
proof -
  assume ne: "collapse_ws (dropWhile is_space cs) \<noteq> []"
  have d: "dropWhile is_space cs \<noteq> []"
  proof
    assume "dropWhile is_space cs = []"
    with ne show False by simp
  qed
  then obtain x xs where x: "dropWhile is_space cs = x # xs" by (cases "dropWhile is_space cs") auto
  from hd_dropWhile [OF d] x have "\<not> is_space x" by simp
  with x show ?thesis by simp
qed

lemma ws_norm_Cons:
  "ws_norm (c # cs) = ((is_space c \<longrightarrow> c = CHR '' '' \<and> (cs \<noteq> [] \<longrightarrow> \<not> is_space (hd cs))) \<and> ws_norm cs)"
  by (cases cs) auto

lemma ws_norm_collapse_ws: "ws_norm (collapse_ws s)"
proof (induction s rule: collapse_ws.induct)
  case 1
  then show ?case by simp
next
  case (2 c cs)
  show ?case
  proof (cases "is_space c")
    case True
    with 2 show ?thesis
      using collapse_ws_hd_dropWhile [of cs] by (simp add: ws_norm_Cons)
  next
    case False
    with 2 show ?thesis by (simp add: ws_norm_Cons)
  qed
qed

lemma collapse_ws_id: "ws_norm s \<Longrightarrow> collapse_ws s = s"
proof (induction s rule: ws_norm.induct)
  case 1
  then show ?case by simp
next
  case (2 c)
  then show ?case by auto
next
  case (3 c d cs)
  then show ?case by auto
qed

lemma ws_norm_append_left: "ws_norm (a @ b) \<Longrightarrow> ws_norm a"
proof (induction a rule: ws_norm.induct)
  case 1
  then show ?case by simp
next
  case (2 c)
  then show ?case by (cases b) auto
next
  case (3 c d cs)
  then show ?case by auto
qed

lemma ws_norm_append_right: "ws_norm (a @ b) \<Longrightarrow> ws_norm b"
proof (induction a)
  case Nil
  then show ?case by simp
next
  case (Cons c a)
  then show ?case by (simp add: ws_norm_Cons)
qed

lemma strip_end_prefix: "\<exists>t. x = rev (dropWhile P (rev x)) @ t"
proof -
  have "x = rev (dropWhile P (rev x)) @ rev (takeWhile P (rev x))"
    by (metis rev_append rev_rev_ident takeWhile_dropWhile_id)
  then show ?thesis ..
qed

lemma dropWhile_suffix: "\<exists>t. x = t @ dropWhile P x"
  by (metis takeWhile_dropWhile_id)

lemma rsplit1_head_prefix: "\<exists>t. x = rsplit1_head x @ t"
proof (cases "CHR '' '' \<in> set x")
  case True
  obtain t where t: "x = rev (dropWhile (\<lambda>c. c \<noteq> CHR '' '') (rev x)) @ t"
    using strip_end_prefix by blast
  let ?d = "dropWhile (\<lambda>c. c \<noteq> CHR '' '') (rev x)"
  have "?d \<noteq> []" using True by auto
  then have "?d = hd ?d # tl ?d" by simp
  then have "rev ?d = rev (tl ?d) @ [hd ?d]" by (metis rev.simps(2))
  with t have "x = rev (tl ?d) @ ([hd ?d] @ t)" by simp
  with True show ?thesis unfolding rsplit1_head_def by (simp only: if_True) blast
next
  case False
  then show ?thesis by (simp add: rsplit1_head_def)
qed

lemma py_take_prefix: "\<exists>t. x = py_take x n @ t"
  unfolding py_take_def by (metis append_take_drop_id)

lemma length_py_take: "0 \<le> n \<Longrightarrow> length (py_take x n) \<le> nat n"
  by (simp add: py_take_def)

lemma safe_form_unknown: "safe_form ''unknown''"
  by (simp add: safe_form_def invalid_chars_def is_space_def whitespace_chars_def
      strip_set_def default_max_length_def)

lemma strip_chars_shape:
  "\<exists>a b. s = a @ strip_chars cs s @ b \<and>
     (strip_chars cs s \<noteq> [] \<longrightarrow> hd (strip_chars cs s) \<notin> set cs)"
proof -
  let ?P = "\<lambda>c. c \<in> set cs"
  let ?d = "dropWhile ?P s"
  obtain a where a: "s = a @ ?d" using dropWhile_suffix by blast
  obtain b where b: "?d = strip_chars cs s @ b"
    unfolding strip_chars_def using strip_end_prefix by blast
  have "hd (strip_chars cs s) \<notin> set cs" if ne: "strip_chars cs s \<noteq> []"
  proof -
    from ne b have "hd ?d = hd (strip_chars cs s)" by (metis hd_append2)
    moreover from ne b have "?d \<noteq> []" by auto
    ultimately show ?thesis using hd_dropWhile [of ?P s] by simp
  qed
  with a b show ?thesis by auto
qed

lemma safe_form_cut:
  assumes f3: "f3 = strip_chars '' ._'' (collapse_ws (replace_invalid s))"
    and pre: "f3 = r @ t" and ne: "r \<noteq> []"
    and len: "int (length r) \<le> default_max_length"
  shows "safe_form r"
proof -
  let ?f2 = "collapse_ws (replace_invalid s)"
  obtain a b where ab: "?f2 = a @ f3 @ b"
    and hd3: "f3 \<noteq> [] \<longrightarrow> hd f3 \<notin> set '' ._''"
    using strip_chars_shape [of ?f2 "'' ._''"] f3 by auto
  have "set r \<subseteq> set ?f2" using ab pre by auto
  also have "\<dots> \<subseteq> insert CHR '' '' (set (replace_invalid s))" by (rule set_collapse_ws)
  finally have "set r \<inter> set invalid_chars = {}"
    using set_replace_invalid [of s] invalid_space by auto
  moreover have "ws_norm r"
  proof -
    have "ws_norm (a @ (r @ t) @ b)" using ws_norm_collapse_ws [of "replace_invalid s"] ab pre by simp
    then have "ws_norm ((r @ t) @ b)" by (rule ws_norm_append_right)
    then have "ws_norm (r @ t)" by (rule ws_norm_append_left)
    then show ?thesis by (rule ws_norm_append_left)
  qed
  moreover have "\<not> strip_set (hd r)"
  proof -
    from pre ne have "hd f3 = hd r" by simp
    moreover from pre ne have "f3 \<noteq> []" by simp
    ultimately show ?thesis using hd3 by (simp add: strip_set_def)
  qed
  ultimately show ?thesis using ne len by (simp add: safe_form_def)
qed

lemma safe_form_safe_filename: "safe_form (safe_filename s default_max_length)"
proof (cases "s = []")
  case True
  then show ?thesis by (simp add: safe_filename_def safe_form_unknown)
next
  case False
  define f3 where "f3 = strip_chars '' ._'' (collapse_ws (replace_invalid s))"
  define f4 where "f4 = (if int (length f3) > default_max_length
                  then rsplit1_head (py_take f3 default_max_length) else f3)"
  have sf: "safe_filename s default_max_length = (if f4 = [] then ''unknown'' else f4)"
    using False by (simp add: safe_filename_def f3_def f4_def Let_def)
  show ?thesis
  proof (cases "f4 = []")
    case True
    with sf show ?thesis by (simp add: safe_form_unknown)
  next
    case ne: False
    have pre: "\<exists>t. f3 = f4 @ t"
    proof (cases "int (length f3) > default_max_length")
      case True
      obtain t1 where t1: "f3 = py_take f3 default_max_length @ t1" using py_take_prefix by blast
      obtain t2 where t2: "py_take f3 default_max_length = f4 @ t2"
        using rsplit1_head_prefix [of "py_take f3 default_max_length"] True
        by (auto simp: f4_def)
      from t1 t2 have "f3 = f4 @ (t2 @ t1)" by simp
      then show ?thesis ..
    next
      case False
      then show ?thesis by (simp add: f4_def)
    qed
    have len: "int (length f4) \<le> default_max_length"
    proof (cases "int (length f3) > default_max_length")
      case True
      obtain t2 where t2: "py_take f3 default_max_length = f4 @ t2"
        using rsplit1_head_prefix [of "py_take f3 default_max_length"] True
        by (auto simp: f4_def)
      have "length (py_take f3 default_max_length) \<le> nat default_max_length"
        by (rule length_py_take) (simp add: default_max_length_def)
      with t2 show ?thesis by (simp add: default_max_length_def)
    next
      case False
      then show ?thesis by (simp add: f4_def)
    qed
    from pre obtain t where "f3 = f4 @ t" ..
    with f3_def have "safe_form f4" using ne len by (rule safe_form_cut)
    with sf ne show ?thesis by simp
  qed
qed

lemma safe_filename_on_safe_form:
  assumes "safe_form r"
  shows "safe_filename r default_max_length =
           (if strip_end r = [] then ''unknown'' else strip_end r)"
proof -
  from assms have inv: "set r \<inter> set invalid_chars = {}" and ws: "ws_norm r"
    and ne: "r \<noteq> []" and hd: "\<not> strip_set (hd r)"
    and len: "int (length r) \<le> default_max_length"
    by (simp_all add: safe_form_def)
  have 1: "replace_invalid r = r" using inv by (rule replace_invalid_id)
  have 2: "collapse_ws r = r" using ws by (rule collapse_ws_id)
  have "dropWhile (\<lambda>c. c \<in> set '' ._'') r = r"
    using hd ne by (simp add: dropWhile_eq_self_iff strip_set_def)
  then have 3: "strip_chars '' ._'' r = strip_end r"
    by (simp add: strip_chars_def strip_end_def strip_set_def [abs_def])
  have "length (strip_end r) \<le> length r"
    unfolding strip_end_def using length_dropWhile_le [of strip_set "rev r"] by simp
  with len have 4: "\<not> int (length (strip_end r)) > default_max_length" by simp
  show ?thesis using ne 1 2 3 4 by (simp add: safe_filename_def Let_def)
qed

lemma strip_end_id: "r \<noteq> [] \<Longrightarrow> \<not> strip_set (last r) \<Longrightarrow> strip_end r = r"
proof -
  assume ne: "r \<noteq> []" and l: "\<not> strip_set (last r)"
  then have "dropWhile strip_set (rev r) = rev r"
    by (simp add: dropWhile_eq_self_iff hd_rev)
  then show ?thesis by (simp add: strip_end_def)
qed

lemma strip_end_shorter: "r \<noteq> [] \<Longrightarrow> strip_set (last r) \<Longrightarrow> length (strip_end r) < length r"
proof -
  assume ne: "r \<noteq> []" and l: "strip_set (last r)"
  then obtain x xs where x: "rev r = x # xs" and "strip_set x"
    by (cases "rev r") (auto simp: hd_rev [symmetric])
  then have "length (dropWhile strip_set (rev r)) \<le> length xs"
    by (simp add: length_dropWhile_le)
  moreover have "length r = Suc (length xs)" using x by (metis length_Cons length_rev)
  ultimately show ?thesis by (simp add: strip_end_def)
qed

lemma strip_chars_last: "strip_chars cs s \<noteq> [] \<Longrightarrow> last (strip_chars cs s) \<notin> set cs"
proof -
  let ?P = "\<lambda>c. c \<in> set cs"
  let ?d = "dropWhile ?P (rev (dropWhile ?P s))"
  assume ne: "strip_chars cs s \<noteq> []"
  then have d: "?d \<noteq> []" by (simp add: strip_chars_def)
  have "last (strip_chars cs s) = hd ?d"
    unfolding strip_chars_def using d by (simp add: last_rev)
  with hd_dropWhile [OF d] show ?thesis by simp
qed

lemma safe_filename_untruncated:
  assumes "int (length (strip_chars '' ._'' (collapse_ws (replace_invalid s)))) \<le> default_max_length"
  shows "\<not> strip_set (last (safe_filename s default_max_length))"
proof -
  let ?f3 = "strip_chars '' ._'' (collapse_ws (replace_invalid s))"
  have u: "\<not> strip_set (last ''unknown'')" by (simp add: strip_set_def)
  show ?thesis
  proof (cases "s = [] \<or> ?f3 = []")
    case True
    with u assms show ?thesis by (auto simp: safe_filename_def Let_def)
  next
    case False
    with assms have "safe_filename s default_max_length = ?f3"
      by (simp add: safe_filename_def Let_def)
    with False strip_chars_last [of "'' ._''" "collapse_ws (replace_invalid s)"]
    show ?thesis by (simp add: strip_set_def)
  qed
qed

text \<open>
  C4. Whatever the input, the name returned with the default maximum length holds none of
  the characters \<open>< > : " / \ | ? *\<close>, no carriage return and no newline (the
  characters of \<open>invalid_chars\<close>), is at most 180 characters long and is not empty; a
  name that is empty after cleaning is returned as \<open>unknown\<close>.
\<close>

theorem safe_filename_output:
  "set (safe_filename s default_max_length) \<inter> set invalid_chars = {} \<and>
   length (safe_filename s default_max_length) \<le> 180 \<and>
   safe_filename s default_max_length \<noteq> [] \<and>
   (strip_chars '' ._'' (collapse_ws (replace_invalid s)) = []
      \<longrightarrow> safe_filename s default_max_length = ''unknown'')"
proof -
  have "safe_form (safe_filename s default_max_length)" by (rule safe_form_safe_filename)
  then have "set (safe_filename s default_max_length) \<inter> set invalid_chars = {}"
    and "length (safe_filename s default_max_length) \<le> 180"
    and "safe_filename s default_max_length \<noteq> []"
    by (simp_all add: safe_form_def default_max_length_def)
  moreover have "safe_filename s default_max_length = ''unknown''"
    if "strip_chars '' ._'' (collapse_ws (replace_invalid s)) = []"
    using that by (simp add: safe_filename_def Let_def default_max_length_def)
  ultimately show ?thesis by blast
qed

theorem safe_filename_output_witness:
  "strip_chars '' ._'' (collapse_ws (replace_invalid '' ._. '')) = [] \<and>
   safe_filename '' ._. '' default_max_length = ''unknown''"
proof -
  have h: "strip_chars '' ._'' (collapse_ws (replace_invalid '' ._. '')) = []"
    by code_simp
  with safe_filename_output [of "'' ._. ''"] show ?thesis by blast
qed

text \<open>
  C3. Sanitizing twice gives the same name as sanitizing once exactly when the sanitized
  name does not end in a space, a dot or an underscore. That is so for every input whose
  cleaned form has at most 180 characters; cutting a longer one can leave a dot or an
  underscore at the end, which a second pass removes.
\<close>

theorem safe_filename_twice:
  "(safe_filename (safe_filename s default_max_length) default_max_length =
      safe_filename s default_max_length
    \<longleftrightarrow> last (safe_filename s default_max_length) \<notin> set '' ._'') \<and>
   (int (length (strip_chars '' ._'' (collapse_ws (replace_invalid s)))) \<le> default_max_length
    \<longrightarrow> safe_filename (safe_filename s default_max_length) default_max_length =
      safe_filename s default_max_length)"
proof -
  let ?r = "safe_filename s default_max_length"
  have sf: "safe_form ?r" by (rule safe_form_safe_filename)
  then have ne: "?r \<noteq> []" by (simp add: safe_form_def)
  note eq = safe_filename_on_safe_form [OF sf]
  have iff: "safe_filename ?r default_max_length = ?r \<longleftrightarrow> \<not> strip_set (last ?r)"
  proof (cases "strip_set (last ?r)")
    case True
    from strip_end_shorter [OF ne True] have "strip_end ?r \<noteq> ?r" by auto
    moreover have "?r \<noteq> ''unknown''" using True by (auto simp: strip_set_def)
    ultimately show ?thesis using eq True by auto
  next
    case False
    from strip_end_id [OF ne False] show ?thesis using eq ne False by simp
  qed
  moreover have "safe_filename ?r default_max_length = ?r"
    if "int (length (strip_chars '' ._'' (collapse_ws (replace_invalid s)))) \<le> default_max_length"
    using iff safe_filename_untruncated [OF that] by simp
  ultimately show ?thesis by (simp add: strip_set_def)
qed

theorem safe_filename_twice_witness:
  "int (length (strip_chars '' ._'' (collapse_ws (replace_invalid ''a<b>  c..  ''))))
     \<le> default_max_length \<and>
   safe_filename (safe_filename ''a<b>  c..  '' default_max_length) default_max_length =
     safe_filename ''a<b>  c..  '' default_max_length"
proof -
  have h: "int (length (strip_chars '' ._'' (collapse_ws (replace_invalid ''a<b>  c..  ''))))
     \<le> default_max_length"
    by code_simp
  with safe_filename_twice [of "''a<b>  c..  ''"] show ?thesis by blast
qed

text \<open>
  A name of 202 characters, a hundred \<open>a\<close>, a dot, a space and a hundred \<open>b\<close>: the
  first pass cuts it after the dot, the second pass strips the dot.
\<close>

theorem safe_filename_not_idempotent:
  "safe_filename
     (safe_filename (replicate 100 CHR ''a'' @ ''. '' @ replicate 100 CHR ''b'')
        default_max_length) default_max_length
   \<noteq> safe_filename (replicate 100 CHR ''a'' @ ''. '' @ replicate 100 CHR ''b'')
        default_max_length"
  by code_simp

section \<open>Properties of the normalizer\<close>

lemma and_then_Inr [simp]: "and_then (Inr x) f = f x"
  by (simp add: and_then_def)

lemma and_then_Inl [simp]: "and_then (Inl e) f = Inl e"
  by (simp add: and_then_def)

lemma person_info_obj:
  "person_info (JObj d) =
     Inr (JObj [(''name'', dict_get d ''fullName'' (JStr '''')),
                (''first_name'', dict_get d ''first_name'' (JStr '''')),
                (''last_name'', dict_get d ''last_name'' (JStr '''')),
                (''affiliation'', dict_get d ''affiliation'' (JStr '''')),
                (''id'', dict_get d ''id'' (JStr ''''))])"
  by (simp add: person_info_def)

lemma attachment_info_obj:
  "attachment_info (JObj d) =
     Inr (JObj [(''id'', dict_get d ''id'' (JStr '''')),
                (''title'', dict_get d ''title'' (JStr '''')),
                (''filename'', dict_get d ''filename'' (JStr '''')),
                (''download_url'', dict_get d ''download_url'' (JStr '''')),
                (''content_type'', dict_get d ''content_type'' (JStr '''')),
                (''size'', dict_get d ''size'' (JInt 0)),
                (''modified_dt'', dict_get d ''modified_dt'' (JStr '''')),
                (''is_protected'', dict_get d ''is_protected'' (JBool False))])"
  by (simp add: attachment_info_def)

lemma is_obj_iff: "is_obj v \<longleftrightarrow> (\<exists>d. v = JObj d)"
  by (cases v) auto

lemma map_err_total:
  "list_all (\<lambda>x. \<exists>y. f x = Inr y) xs \<Longrightarrow> \<exists>ys. map_err f xs = Inr ys \<and> length ys = length xs"
proof (induction xs)
  case Nil
  then show ?case by simp
next
  case (Cons x xs)
  then obtain y ys where "f x = Inr y" "map_err f xs = Inr ys" "length ys = length xs" by auto
  then show ?case by simp
qed

lemma people_total: "obj_list v \<Longrightarrow> \<exists>ps. people v = Inr ps"
proof (cases v)
  case (JArr xs)
  assume "obj_list v"
  with JArr have "list_all is_obj xs" by simp
  then have "list_all (\<lambda>x. \<exists>y. person_info x = Inr y) xs"
    by (auto simp: list_all_iff is_obj_iff person_info_obj)
  from map_err_total [OF this] JArr show ?thesis by (auto simp: people_def)
qed auto

lemma folder_attachments_total: "folder_shape f \<Longrightarrow> \<exists>as. folder_attachments f = Inr as"
proof (cases f)
  case (JObj d)
  assume "folder_shape f"
  with JObj have o: "obj_list (dict_get d ''attachments'' (JArr []))" by simp
  then obtain xs where xs: "dict_get d ''attachments'' (JArr []) = JArr xs"
    by (cases "dict_get d ''attachments'' (JArr [])") auto
  with o have "list_all is_obj xs" by simp
  then have "list_all (\<lambda>x. \<exists>y. attachment_info x = Inr y) xs"
    by (auto simp: list_all_iff is_obj_iff attachment_info_obj)
  from map_err_total [OF this] JObj xs show ?thesis by (auto simp: folder_attachments_def)
qed auto

lemma all_attachments_total: "folder_list v \<Longrightarrow> \<exists>as. all_attachments v = Inr as"
proof (cases v)
  case (JArr fs)
  assume "folder_list v"
  with JArr have "list_all folder_shape fs" by simp
  then have "list_all (\<lambda>x. \<exists>y. folder_attachments x = Inr y) fs"
    by (auto simp: list_all_iff dest: folder_attachments_total)
  from map_err_total [OF this] JArr show ?thesis by (auto simp: all_attachments_def)
qed auto

lemma date_get_total:
  "date_shape v \<Longrightarrow> \<exists>d. py_or v (JObj []) = JObj d \<and> (\<not> truthy v \<longrightarrow> d = [])"
  by (cases v) (auto simp: date_shape_def py_or_def)

lemma dict_get_None: "map_of d k = None \<Longrightarrow> dict_get d k x = x"
  by (simp add: dict_get_def)

lemma people_empty: "people (JArr []) = Inr []"
  by (simp add: people_def)

lemma all_attachments_empty: "all_attachments (JArr []) = Inr []"
  by (simp add: all_attachments_def)

lemma stringified_None: "map_of d k = None \<Longrightarrow> stringified d k = JStr ''''"
  by (simp add: stringified_def dict_get_None)

lemma parse_contribution_shape:
  assumes "raw_record contrib"
  shows "\<exists>sd ed sp pa co at.
     py_or (dict_get contrib ''startDate'' JNull) (JObj []) = JObj sd \<and>
     py_or (dict_get contrib ''endDate'' JNull) (JObj []) = JObj ed \<and>
     people (dict_get contrib ''speakers'' (JArr [])) = Inr sp \<and>
     people (dict_get contrib ''primaryauthors'' (JArr [])) = Inr pa \<and>
     people (dict_get contrib ''coauthors'' (JArr [])) = Inr co \<and>
     all_attachments (dict_get contrib ''folders'' (JArr [])) = Inr at \<and>
     parse_contribution contrib =
       Inr [(''id'', dict_get contrib ''id'' (JStr '''')),
          (''db_id'', dict_get contrib ''db_id'' (JStr '''')),
          (''friendly_id'', dict_get contrib ''friendly_id'' (JStr '''')),
          (''title'', dict_get contrib ''title'' (JStr '''')),
          (''type'', dict_get contrib ''type'' (JStr '''')),
          (''description'', dict_get contrib ''description'' (JStr '''')),
          (''start_date'', dict_get sd ''date'' (JStr '''')),
          (''start_time'', dict_get sd ''time'' (JStr '''')),
          (''end_date'', dict_get ed ''date'' (JStr '''')),
          (''end_time'', dict_get ed ''time'' (JStr '''')),
          (''duration'', dict_get contrib ''duration'' (JInt 0)),
          (''location'', dict_get contrib ''location'' (JStr '''')),
          (''room'', dict_get contrib ''room'' (JStr '''')),
          (''url'', dict_get contrib ''url'' (JStr '''')),
          (''session'', stringified contrib ''session''),
          (''track'', stringified contrib ''track''),
          (''board_number'', dict_get contrib ''board_number'' (JStr '''')),
          (''code'', dict_get contrib ''code'' (JStr '''')),
          (''speakers'', JArr sp),
          (''primary_authors'', JArr pa),
          (''coauthors'', JArr co),
          (''attachments'', JArr at),
          (''attachment_count'', JInt (int (length at))),
          (''keywords'', dict_get contrib ''keywords'' (JArr []))]"
proof -
  from assms obtain sd where sd: "py_or (dict_get contrib ''startDate'' JNull) (JObj []) = JObj sd"
    using date_get_total unfolding raw_record_def by blast
  from assms obtain ed where ed: "py_or (dict_get contrib ''endDate'' JNull) (JObj []) = JObj ed"
    using date_get_total unfolding raw_record_def by blast
  from assms obtain sp where sp: "people (dict_get contrib ''speakers'' (JArr [])) = Inr sp"
    using people_total unfolding raw_record_def by blast
  from assms obtain pa where pa: "people (dict_get contrib ''primaryauthors'' (JArr [])) = Inr pa"
    using people_total unfolding raw_record_def by blast
  from assms obtain co where co: "people (dict_get contrib ''coauthors'' (JArr [])) = Inr co"
    using people_total unfolding raw_record_def by blast
  from assms obtain at where at: "all_attachments (dict_get contrib ''folders'' (JArr [])) = Inr at"
    using all_attachments_total unfolding raw_record_def by blast
  have "parse_contribution contrib =
       Inr [(''id'', dict_get contrib ''id'' (JStr '''')),
          (''db_id'', dict_get contrib ''db_id'' (JStr '''')),
          (''friendly_id'', dict_get contrib ''friendly_id'' (JStr '''')),
          (''title'', dict_get contrib ''title'' (JStr '''')),
          (''type'', dict_get contrib ''type'' (JStr '''')),
          (''description'', dict_get contrib ''description'' (JStr '''')),
          (''start_date'', dict_get sd ''date'' (JStr '''')),
          (''start_time'', dict_get sd ''time'' (JStr '''')),
          (''end_date'', dict_get ed ''date'' (JStr '''')),
          (''end_time'', dict_get ed ''time'' (JStr '''')),
          (''duration'', dict_get contrib ''duration'' (JInt 0)),
          (''location'', dict_get contrib ''location'' (JStr '''')),
          (''room'', dict_get contrib ''room'' (JStr '''')),
          (''url'', dict_get contrib ''url'' (JStr '''')),
          (''session'', stringified contrib ''session''),
          (''track'', stringified contrib ''track''),
          (''board_number'', dict_get contrib ''board_number'' (JStr '''')),
          (''code'', dict_get contrib ''code'' (JStr '''')),
          (''speakers'', JArr sp),
          (''primary_authors'', JArr pa),
          (''coauthors'', JArr co),
          (''attachments'', JArr at),
          (''attachment_count'', JInt (int (length at))),
          (''keywords'', dict_get contrib ''keywords'' (JArr []))]"
    unfolding parse_contribution_def Let_def sd ed sp pa co at by simp
  with sd ed sp pa co at show ?thesis by blast
qed

lemma defaulted_person: "\<exists>p. person_info (JObj d) = Inr (JObj p) \<and> defaulted person_defaults d p"
  by (simp add: person_info_obj defaulted_def person_defaults_def dict_get_None)

lemma defaulted_attachment:
  "\<exists>a. attachment_info (JObj d) = Inr (JObj a) \<and> defaulted attachment_defaults d a"
  by (simp add: attachment_info_obj defaulted_def attachment_defaults_def dict_get_None)

lemma person_info_rel: "person_info (JObj d) = Inr y \<Longrightarrow> person_rel (JObj d) y"
  by (auto simp: person_info_obj person_defaults_def carried_def)

lemma attachment_info_rel: "attachment_info (JObj d) = Inr y \<Longrightarrow> attachment_rel (JObj d) y"
  by (auto simp: attachment_info_obj attachment_defaults_def carried_def)

lemma map_err_rel:
  assumes "\<And>x y. x \<in> set xs \<Longrightarrow> f x = Inr y \<Longrightarrow> r x y"
  shows "map_err f xs = Inr ys \<Longrightarrow> list_all2 r xs ys"
  using assms
proof (induction xs arbitrary: ys)
  case Nil
  then show ?case by simp
next
  case (Cons x xs)
  from Cons.prems(1) obtain y ys' where y: "f x = Inr y" and ys': "map_err f xs = Inr ys'"
    and ys: "ys = y # ys'"
    by (auto split: sum.splits)
  from Cons.IH [OF ys'] Cons.prems(2) have "list_all2 r xs ys'" by simp
  moreover from Cons.prems(2) y have "r x y" by simp
  ultimately show ?case using ys by simp
qed

lemma people_rel:
  assumes "obj_list v" and "people v = Inr sp"
  shows "list_all2 person_rel (items v) sp"
proof -
  from assms(1) obtain xs where v: "v = JArr xs" and objs: "list_all is_obj xs"
    by (cases v) auto
  from assms(2) v have m: "map_err person_info xs = Inr sp" by (simp add: people_def)
  have "list_all2 person_rel xs sp"
  proof (rule map_err_rel [OF _ m])
    fix x y
    assume "x \<in> set xs" and "person_info x = Inr y"
    with objs show "person_rel x y"
      by (auto simp: list_all_iff is_obj_iff dest: person_info_rel)
  qed
  with v show ?thesis by simp
qed

lemma folder_attachments_rel:
  assumes "folder_shape f" and "folder_attachments f = Inr as"
  shows "list_all2 attachment_rel (folder_items f) as"
proof -
  from assms(1) obtain d xs where f: "f = JObj d"
    and xs: "dict_get d ''attachments'' (JArr []) = JArr xs" and objs: "list_all is_obj xs"
    by (cases f; cases "dict_get (case f of JObj d \<Rightarrow> d | _ \<Rightarrow> []) ''attachments'' (JArr [])")
       auto
  from assms(2) f xs have m: "map_err attachment_info xs = Inr as"
    by (simp add: folder_attachments_def)
  have "list_all2 attachment_rel xs as"
  proof (rule map_err_rel [OF _ m])
    fix x y
    assume "x \<in> set xs" and "attachment_info x = Inr y"
    with objs show "attachment_rel x y"
      by (auto simp: list_all_iff is_obj_iff dest: attachment_info_rel)
  qed
  with f xs show ?thesis by simp
qed

lemma list_all2_concat:
  "list_all2 (list_all2 r) xss yss \<Longrightarrow> list_all2 r (concat xss) (concat yss)"
  by (induction xss yss rule: list_all2_induct) (auto intro: list_all2_appendI)

lemma all_attachments_rel:
  assumes "folder_list v" and "all_attachments v = Inr at"
  shows "list_all2 attachment_rel (concat (map folder_items (items v))) at"
proof -
  from assms(1) obtain fs where v: "v = JArr fs" and shapes: "list_all folder_shape fs"
    by (cases v) auto
  from assms(2) v obtain xss where m: "map_err folder_attachments fs = Inr xss"
    and at: "at = concat xss"
    by (auto simp: all_attachments_def and_then_def split: sum.splits)
  have "list_all2 (\<lambda>f as. list_all2 attachment_rel (folder_items f) as) fs xss"
  proof (rule map_err_rel [OF _ m])
    fix f as
    assume "f \<in> set fs" and "folder_attachments f = Inr as"
    with shapes show "list_all2 attachment_rel (folder_items f) as"
      by (auto simp: list_all_iff intro: folder_attachments_rel)
  qed
  then have "list_all2 (list_all2 attachment_rel) (map folder_items fs) xss"
    by (simp add: list_all2_map1)
  from list_all2_concat [OF this] v at show ?thesis by simp
qed

text \<open>
  On every raw contribution record the normalizer returns a contribution and raises
  nothing. The result has the twenty-four keys of the table; a key whose raw key is
  missing holds the table's default (empty string, zero or empty list); the copied keys
  hold the raw value where there is one; the date keys are read from the date
  dictionaries; the people lists hold the five-key form of each person, in order; the
  attachments are the eight-key forms of the attachments of all folders, folder after
  folder, and \<open>attachment_count\<close> is their number.
\<close>

lemma parse_contribution_on_raw_record:
  assumes "raw_record contrib"
  shows "\<exists>c sd ed sp pa co at.
     parse_contribution contrib = Inr c \<and>
     defaulted contribution_defaults contrib c \<and>
     carried contribution_copied contrib c \<and>
     py_or (dict_get contrib ''startDate'' JNull) (JObj []) = JObj sd \<and>
     map_of c ''start_date'' = Some (dict_get sd ''date'' (JStr '''')) \<and>
     map_of c ''start_time'' = Some (dict_get sd ''time'' (JStr '''')) \<and>
     py_or (dict_get contrib ''endDate'' JNull) (JObj []) = JObj ed \<and>
     map_of c ''end_date'' = Some (dict_get ed ''date'' (JStr '''')) \<and>
     map_of c ''end_time'' = Some (dict_get ed ''time'' (JStr '''')) \<and>
     map_of c ''session'' = Some (stringified contrib ''session'') \<and>
     map_of c ''track'' = Some (stringified contrib ''track'') \<and>
     map_of c ''speakers'' = Some (JArr sp) \<and>
     list_all2 person_rel (items (dict_get contrib ''speakers'' (JArr []))) sp \<and>
     map_of c ''primary_authors'' = Some (JArr pa) \<and>
     list_all2 person_rel (items (dict_get contrib ''primaryauthors'' (JArr []))) pa \<and>
     map_of c ''coauthors'' = Some (JArr co) \<and>
     list_all2 person_rel (items (dict_get contrib ''coauthors'' (JArr []))) co \<and>
     map_of c ''attachments'' = Some (JArr at) \<and>
     list_all2 attachment_rel
       (concat (map folder_items (items (dict_get contrib ''folders'' (JArr []))))) at \<and>
     map_of c ''attachment_count'' = Some (JInt (int (length at)))"
proof -
  from parse_contribution_shape [OF assms] obtain sd ed sp pa co at where
    sd: "py_or (dict_get contrib ''startDate'' JNull) (JObj []) = JObj sd" and
    ed: "py_or (dict_get contrib ''endDate'' JNull) (JObj []) = JObj ed" and
    sp: "people (dict_get contrib ''speakers'' (JArr [])) = Inr sp" and
    pa: "people (dict_get contrib ''primaryauthors'' (JArr [])) = Inr pa" and
    co: "people (dict_get contrib ''coauthors'' (JArr [])) = Inr co" and
    at: "all_attachments (dict_get contrib ''folders'' (JArr [])) = Inr at" and
    c: "parse_contribution contrib =
       Inr [(''id'', dict_get contrib ''id'' (JStr '''')),
          (''db_id'', dict_get contrib ''db_id'' (JStr '''')),
          (''friendly_id'', dict_get contrib ''friendly_id'' (JStr '''')),
          (''title'', dict_get contrib ''title'' (JStr '''')),
          (''type'', dict_get contrib ''type'' (JStr '''')),
          (''description'', dict_get contrib ''description'' (JStr '''')),
          (''start_date'', dict_get sd ''date'' (JStr '''')),
          (''start_time'', dict_get sd ''time'' (JStr '''')),
          (''end_date'', dict_get ed ''date'' (JStr '''')),
          (''end_time'', dict_get ed ''time'' (JStr '''')),
          (''duration'', dict_get contrib ''duration'' (JInt 0)),
          (''location'', dict_get contrib ''location'' (JStr '''')),
          (''room'', dict_get contrib ''room'' (JStr '''')),
          (''url'', dict_get contrib ''url'' (JStr '''')),
          (''session'', stringified contrib ''session''),
          (''track'', stringified contrib ''track''),
          (''board_number'', dict_get contrib ''board_number'' (JStr '''')),
          (''code'', dict_get contrib ''code'' (JStr '''')),
          (''speakers'', JArr sp),
          (''primary_authors'', JArr pa),
          (''coauthors'', JArr co),
          (''attachments'', JArr at),
          (''attachment_count'', JInt (int (length at))),
          (''keywords'', dict_get contrib ''keywords'' (JArr []))]"
    by blast
  have sd0: "map_of contrib ''startDate'' = None \<longrightarrow> sd = []"
    using sd by (auto simp: dict_get_None py_or_def)
  have ed0: "map_of contrib ''endDate'' = None \<longrightarrow> ed = []"
    using ed by (auto simp: dict_get_None py_or_def)
  have sp0: "map_of contrib ''speakers'' = None \<longrightarrow> sp = []"
    using sp by (auto simp: dict_get_None people_empty)
  have pa0: "map_of contrib ''primaryauthors'' = None \<longrightarrow> pa = []"
    using pa by (auto simp: dict_get_None people_empty)
  have co0: "map_of contrib ''coauthors'' = None \<longrightarrow> co = []"
    using co by (auto simp: dict_get_None people_empty)
  have at0: "map_of contrib ''folders'' = None \<longrightarrow> at = []"
    using at by (auto simp: dict_get_None all_attachments_empty)
  let ?c = "[(''id'', dict_get contrib ''id'' (JStr '''')),
          (''db_id'', dict_get contrib ''db_id'' (JStr '''')),
          (''friendly_id'', dict_get contrib ''friendly_id'' (JStr '''')),
          (''title'', dict_get contrib ''title'' (JStr '''')),
          (''type'', dict_get contrib ''type'' (JStr '''')),
          (''description'', dict_get contrib ''description'' (JStr '''')),
          (''start_date'', dict_get sd ''date'' (JStr '''')),
          (''start_time'', dict_get sd ''time'' (JStr '''')),
          (''end_date'', dict_get ed ''date'' (JStr '''')),
          (''end_time'', dict_get ed ''time'' (JStr '''')),
          (''duration'', dict_get contrib ''duration'' (JInt 0)),
          (''location'', dict_get contrib ''location'' (JStr '''')),
          (''room'', dict_get contrib ''room'' (JStr '''')),
          (''url'', dict_get contrib ''url'' (JStr '''')),
          (''session'', stringified contrib ''session''),
          (''track'', stringified contrib ''track''),
          (''board_number'', dict_get contrib ''board_number'' (JStr '''')),
          (''code'', dict_get contrib ''code'' (JStr '''')),
          (''speakers'', JArr sp),
          (''primary_authors'', JArr pa),
          (''coauthors'', JArr co),
          (''attachments'', JArr at),
          (''attachment_count'', JInt (int (length at))),
          (''keywords'', dict_get contrib ''keywords'' (JArr []))]"
  have dflt: "defaulted contribution_defaults contrib ?c"
    using sd0 ed0 sp0 pa0 co0 at0
    by (simp add: defaulted_def contribution_defaults_def dict_get_None stringified_None)
  have cp: "carried contribution_copied contrib ?c"
    by (simp add: carried_def contribution_copied_def)
  have keys: "map_of ?c ''start_date'' = Some (dict_get sd ''date'' (JStr ''''))"
    "map_of ?c ''start_time'' = Some (dict_get sd ''time'' (JStr ''''))"
    "map_of ?c ''end_date'' = Some (dict_get ed ''date'' (JStr ''''))"
    "map_of ?c ''end_time'' = Some (dict_get ed ''time'' (JStr ''''))"
    "map_of ?c ''session'' = Some (stringified contrib ''session'')"
    "map_of ?c ''track'' = Some (stringified contrib ''track'')"
    "map_of ?c ''speakers'' = Some (JArr sp)"
    "map_of ?c ''primary_authors'' = Some (JArr pa)"
    "map_of ?c ''coauthors'' = Some (JArr co)"
    "map_of ?c ''attachments'' = Some (JArr at)"
    "map_of ?c ''attachment_count'' = Some (JInt (int (length at)))"
    by simp_all
  from assms have shapes: "obj_list (dict_get contrib ''speakers'' (JArr []))"
    "obj_list (dict_get contrib ''primaryauthors'' (JArr []))"
    "obj_list (dict_get contrib ''coauthors'' (JArr []))"
    "folder_list (dict_get contrib ''folders'' (JArr []))"
    by (simp_all add: raw_record_def)
  note rels = people_rel [OF shapes(1) sp] people_rel [OF shapes(2) pa]
    people_rel [OF shapes(3) co] all_attachments_rel [OF shapes(4) at]
  from c dflt cp sd ed keys rels show ?thesis by blast
qed

text \<open>
  C1 at the raw records \<open>{"id": "1", "speakers": null}\<close> and
  \<open>{"id": "1", "folders": null}\<close>: the normalizer raises \<open>TypeError\<close>, since \<open>None\<close>
  cannot be iterated. With \<open>null\<close> under \<open>startDate\<close>, \<open>endDate\<close>, \<open>session\<close> and
  \<open>track\<close> it returns the contribution it returns without these keys.
\<close>

theorem parse_contribution_null_list:
  "parse_contribution [(''id'', JStr ''1''), (''speakers'', JNull)] = Inl TypeError \<and>
   parse_contribution [(''id'', JStr ''1''), (''folders'', JNull)] = Inl TypeError \<and>
   parse_contribution [(''id'', JStr ''1''), (''startDate'', JNull), (''endDate'', JNull),
                       (''session'', JNull), (''track'', JNull)] =
     parse_contribution [(''id'', JStr ''1'')] \<and>
   parse_contribution [(''id'', JStr ''1'')] = Inr (parsed_of (JObj [(''id'', JStr ''1'')]))"
  by (simp add: parse_contribution_def dict_get_def py_or_def people_def all_attachments_def
      stringified_def parsed_of_def)

section \<open>Properties of the classification\<close>

lemma contrib_type_label:
  "type_label p \<Longrightarrow> \<exists>t. contrib_type p = Inr t"
  by (cases "dict_get p ''type'' JNull") (auto simp: type_label_def contrib_type_def py_or_def)

lemma category_label:
  "type_label p \<Longrightarrow> \<exists>k. category_of_contribution p = Some k"
  using contrib_type_label [of p] by (auto simp: category_of_contribution_def)

lemma category_empty_type:
  "\<not> truthy (dict_get p ''type'' JNull) \<Longrightarrow> category_of_contribution p = Some Other"
  by (simp add: category_of_contribution_def contrib_type_def py_or_def lower_def category_of_def)

lemma classify_step_normalized:
  assumes "normalized raw p" and "category_of_contribution p = Some k"
  shows "classify_step raw g =
     Inr (g\<lparr>oral_contributions := oral_contributions g @ (if k = Oral then [p] else []),
            poster_contributions := poster_contributions g @ (if k = Poster then [p] else []),
            other_contributions := other_contributions g @ (if k = Other then [p] else []),
            counters := (counters g)\<lparr>
              total_contributions := Suc (total_contributions (counters g)),
              oral_presentations := oral_presentations (counters g) + (if k = Oral then 1 else 0),
              posters := posters (counters g) + (if k = Poster then 1 else 0)\<rparr>\<rparr>)"
proof -
  from assms(1) obtain d where d: "raw = JObj d" "parse_contribution d = Inr p"
    by (cases raw) (auto simp: normalized_def)
  from assms(2) obtain t where t: "contrib_type p = Inr t" "category_of t = k"
    by (auto simp: category_of_contribution_def split: sum.splits)
  show ?thesis
    by (cases k) (simp_all add: classify_step_def d t Let_def)
qed

lemma classify_all_general:
  assumes "list_all2 normalized raws ps" and "list_all type_label ps"
  shows "\<exists>g'. classify_all raws g = Inr g' \<and>
     oral_contributions g' =
       oral_contributions g @ filter (\<lambda>p. category_of_contribution p = Some Oral) ps \<and>
     poster_contributions g' =
       poster_contributions g @ filter (\<lambda>p. category_of_contribution p = Some Poster) ps \<and>
     other_contributions g' =
       other_contributions g @ filter (\<lambda>p. category_of_contribution p = Some Other) ps \<and>
     total_contributions (counters g') = total_contributions (counters g) + length ps \<and>
     oral_presentations (counters g') = oral_presentations (counters g) +
       length (filter (\<lambda>p. category_of_contribution p = Some Oral) ps) \<and>
     posters (counters g') = posters (counters g) +
       length (filter (\<lambda>p. category_of_contribution p = Some Poster) ps)"
  using assms
proof (induction raws ps arbitrary: g rule: list_all2_induct)
  case Nil
  then show ?case by simp
next
  case (Cons raw raws p ps)
  from Cons.prems have lab: "type_label p" and rest: "list_all type_label ps" by simp_all
  from category_label [OF lab] obtain k where k: "category_of_contribution p = Some k" ..
  note step = classify_step_normalized [OF Cons.hyps(1) k, of g]
  show ?case
    using Cons.IH [OF rest, of "g\<lparr>oral_contributions := oral_contributions g @ (if k = Oral then [p] else []),
            poster_contributions := poster_contributions g @ (if k = Poster then [p] else []),
            other_contributions := other_contributions g @ (if k = Other then [p] else []),
            counters := (counters g)\<lparr>
              total_contributions := Suc (total_contributions (counters g)),
              oral_presentations := oral_presentations (counters g) + (if k = Oral then 1 else 0),
              posters := posters (counters g) + (if k = Poster then 1 else 0)\<rparr>\<rparr>"]
    by (cases k) (auto simp: step k)
qed

lemma mset_three_filters:
  assumes "\<forall>p \<in> set ps. \<exists>k. f p = Some k"
  shows "mset (filter (\<lambda>p. f p = Some Oral) ps) + mset (filter (\<lambda>p. f p = Some Poster) ps) +
         mset (filter (\<lambda>p. f p = Some Other) ps) = mset ps"
  using assms
proof (induction ps)
  case Nil
  then show ?case by simp
next
  case (Cons p ps)
  then obtain k where "f p = Some k" by auto
  with Cons show ?case by (cases k) auto
qed

text \<open>
  C2. Take any list of raw items that the normalizer accepts, and let \<open>ps\<close> be their
  normalized forms, each with a \<open>type\<close> that is a string, empty, \<open>None\<close> or missing.
  Then the loop returns three lists: each is \<open>ps\<close> filtered by one category, so the
  order of \<open>ps\<close> is kept inside each list; every contribution has exactly one category,
  and the three lists together hold the contributions of \<open>ps\<close>, each as often as \<open>ps\<close>
  does. The category follows the lower-cased type: \<open>oral\<close> or \<open>talk\<close> inside it gives
  oral, otherwise \<open>poster\<close> inside it gives poster, otherwise other; an empty or missing
  type gives other.
\<close>

theorem classify_all_partition:
  assumes "list_all2 normalized raws ps" and "list_all type_label ps"
  shows "\<exists>g. classify_all raws (empty_grouping s) = Inr g \<and>
     oral_contributions g = filter (\<lambda>p. category_of_contribution p = Some Oral) ps \<and>
     poster_contributions g = filter (\<lambda>p. category_of_contribution p = Some Poster) ps \<and>
     other_contributions g = filter (\<lambda>p. category_of_contribution p = Some Other) ps \<and>
     mset (oral_contributions g) + mset (poster_contributions g) +
       mset (other_contributions g) = mset ps \<and>
     (\<forall>p \<in> set ps. \<exists>k. category_of_contribution p = Some k) \<and>
     (\<forall>p \<in> set ps. \<forall>t. dict_get p ''type'' JNull = JStr t \<longrightarrow>
        category_of_contribution p =
          Some (if contains ''oral'' (lower t) \<or> contains ''talk'' (lower t) then Oral
                else if contains ''poster'' (lower t) then Poster else Other)) \<and>
     (\<forall>p \<in> set ps. \<not> truthy (dict_get p ''type'' JNull) \<longrightarrow>
        category_of_contribution p = Some Other)"
proof -
  from classify_all_general [OF assms, of "empty_grouping s"] obtain g where
    g: "classify_all raws (empty_grouping s) = Inr g"
      "oral_contributions g = filter (\<lambda>p. category_of_contribution p = Some Oral) ps"
      "poster_contributions g = filter (\<lambda>p. category_of_contribution p = Some Poster) ps"
      "other_contributions g = filter (\<lambda>p. category_of_contribution p = Some Other) ps"
    by (auto simp: empty_grouping_def)
  have total: "\<forall>p \<in> set ps. \<exists>k. category_of_contribution p = Some k"
    using assms(2) category_label by (auto simp: list_all_iff)
  have rule: "category_of_contribution p =
          Some (if contains ''oral'' (lower t) \<or> contains ''talk'' (lower t) then Oral
                else if contains ''poster'' (lower t) then Poster else Other)"
    if "dict_get p ''type'' JNull = JStr t" for p t
    using that
    by (cases "t = []")
       (simp_all add: category_of_contribution_def contrib_type_def py_or_def category_of_def)
  from mset_three_filters [OF total] g
  have "mset (oral_contributions g) + mset (poster_contributions g) +
       mset (other_contributions g) = mset ps" by simp
  with g total rule category_empty_type show ?thesis by blast
qed

theorem classify_all_partition_witness:
  "list_all2 normalized
     [JObj [(''id'', JStr ''1''), (''type'', JStr ''Poster session'')],
      JObj [(''id'', JStr ''2''), (''type'', JStr ''Invited Talk'')],
      JObj [(''id'', JStr ''3'')]]
     (map parsed_of
       [JObj [(''id'', JStr ''1''), (''type'', JStr ''Poster session'')],
        JObj [(''id'', JStr ''2''), (''type'', JStr ''Invited Talk'')],
        JObj [(''id'', JStr ''3'')]]) \<and>
   list_all type_label
     (map parsed_of
       [JObj [(''id'', JStr ''1''), (''type'', JStr ''Poster session'')],
        JObj [(''id'', JStr ''2''), (''type'', JStr ''Invited Talk'')],
        JObj [(''id'', JStr ''3'')]]) \<and>
   (\<exists>g. classify_all
       [JObj [(''id'', JStr ''1''), (''type'', JStr ''Poster session'')],
        JObj [(''id'', JStr ''2''), (''type'', JStr ''Invited Talk'')],
        JObj [(''id'', JStr ''3'')]] (empty_grouping initial_stats) = Inr g \<and>
      oral_contributions g =
        [parsed_of (JObj [(''id'', JStr ''2''), (''type'', JStr ''Invited Talk'')])] \<and>
      poster_contributions g =
        [parsed_of (JObj [(''id'', JStr ''1''), (''type'', JStr ''Poster session'')])] \<and>
      other_contributions g = [parsed_of (JObj [(''id'', JStr ''3'')])])"
proof -
  let ?raws = "[JObj [(''id'', JStr ''1''), (''type'', JStr ''Poster session'')],
      JObj [(''id'', JStr ''2''), (''type'', JStr ''Invited Talk'')],
      JObj [(''id'', JStr ''3'')]]"
  have h1: "list_all2 normalized ?raws (map parsed_of ?raws)"
    by code_simp
  have h2: "list_all type_label (map parsed_of ?raws)"
    by code_simp
  have c1: "category_of_contribution
      (parsed_of (JObj [(''id'', JStr ''1''), (''type'', JStr ''Poster session'')])) = Some Poster"
    by code_simp
  have c2: "category_of_contribution
      (parsed_of (JObj [(''id'', JStr ''2''), (''type'', JStr ''Invited Talk'')])) = Some Oral"
    by code_simp
  have c3: "category_of_contribution (parsed_of (JObj [(''id'', JStr ''3'')])) = Some Other"
    by code_simp
  from classify_all_partition [OF h1 h2, of initial_stats] obtain g where
    g: "classify_all ?raws (empty_grouping initial_stats) = Inr g"
      "oral_contributions g =
         filter (\<lambda>p. category_of_contribution p = Some Oral) (map parsed_of ?raws)"
      "poster_contributions g =
         filter (\<lambda>p. category_of_contribution p = Some Poster) (map parsed_of ?raws)"
      "other_contributions g =
         filter (\<lambda>p. category_of_contribution p = Some Other) (map parsed_of ?raws)"
    by blast
  have "oral_contributions g =
        [parsed_of (JObj [(''id'', JStr ''2''), (''type'', JStr ''Invited Talk'')])]"
    and "poster_contributions g =
        [parsed_of (JObj [(''id'', JStr ''1''), (''type'', JStr ''Poster session'')])]"
    and "other_contributions g = [parsed_of (JObj [(''id'', JStr ''3'')])]"
    unfolding g by (simp_all add: c1 c2 c3)
  with g(1) h1 h2 show ?thesis by blast
qed

section \<open>Properties of the fetch\<close>

lemma fetch_failed_result:
  "fetch_failed e st = (ok, st') \<Longrightarrow>
     \<not> ok \<and> errors (stats st') = Suc (errors (stats st)) \<and>
     log_lines st' = log_lines st @ [(LError, ''Failed to fetch event data: '' @ error_name e)] \<and>
     requests st' = requests st"
  by (auto simp: fetch_failed_def count_error_def log_error_def)

text \<open>One request is sent, whatever comes back: there is no second attempt.\<close>

lemma fetch_event_data_one_request:
  "requests (snd (fetch_event_data net st)) = requests st @ [JStr (api_url st)]"
  by (simp add: fetch_event_data_def Let_def fetch_failed_def count_error_def log_error_def
      log_info_def split: sum.splits option.splits)

text \<open>A transport failure or an error status: \<open>False\<close>, one error line, one more error counted.\<close>

lemma fetch_event_data_transport_failure:
  assumes "and_then (net (JStr (api_url st))) raise_for_status = Inl e"
  shows "fst (fetch_event_data net st) = False \<and>
         errors (stats (snd (fetch_event_data net st))) = Suc (errors (stats st)) \<and>
         last (log_lines (snd (fetch_event_data net st))) =
           (LError, ''Failed to fetch event data: '' @ error_name e)"
  using assms
  by (simp add: fetch_event_data_def Let_def fetch_failed_def count_error_def log_error_def
      log_info_def)

text \<open>
  An envelope without a positive \<open>count\<close>, or without \<open>results\<close>: \<open>False\<close> and one error
  line, and the error counter stays as it was.
\<close>

lemma fetch_event_data_empty_envelope:
  assumes "net (JStr (api_url st)) = Inr resp"
    and "\<not> (400 \<le> status_code resp \<and> status_code resp < 600)"
    and "json_body resp = Some (JObj d)"
    and "dict_get d ''count'' (JInt 0) = JInt 0 \<or> map_of d ''results'' = None"
    and "\<exists>b. py_gt0 (dict_get d ''count'' (JInt 0)) = Inr b"
  shows "fst (fetch_event_data net st) = False \<and>
         errors (stats (snd (fetch_event_data net st))) = errors (stats st) \<and>
         last (log_lines (snd (fetch_event_data net st))) =
           (LError, ''No event data found in API response'')"
  using assms
  by (auto simp: fetch_event_data_def Let_def raise_for_status_def log_error_def log_info_def)

text \<open>
  C8 at the envelope \<open>{"count": 0, "results": []}\<close>, received with status 200: the fetch
  returns \<open>False\<close> after one request and logs the error, and the error counter is still 0.
\<close>

theorem fetch_event_data_empty_not_counted:
  "fst (fetch_event_data
         (\<lambda>url. Inr (respond (JObj [(''count'', JInt 0), (''results'', JArr [])])))
         initial_scraper) = False \<and>
   errors (stats (snd (fetch_event_data
         (\<lambda>url. Inr (respond (JObj [(''count'', JInt 0), (''results'', JArr [])])))
         initial_scraper))) = 0 \<and>
   errors (stats initial_scraper) = 0 \<and>
   last (log_lines (snd (fetch_event_data
         (\<lambda>url. Inr (respond (JObj [(''count'', JInt 0), (''results'', JArr [])])))
         initial_scraper))) = (LError, ''No event data found in API response'') \<and>
   length (requests (snd (fetch_event_data
         (\<lambda>url. Inr (respond (JObj [(''count'', JInt 0), (''results'', JArr [])])))
         initial_scraper))) = 1"
  by (simp add: fetch_event_data_def Let_def raise_for_status_def respond_def dict_get_def
      log_error_def log_info_def initial_scraper_def initial_stats_def)

section \<open>Properties of the download\<close>







lemma walk_leaves_directory: "walk st cur (c # cs) = Some q \<Longrightarrow> is_dir st cur"
  by (simp split: if_splits)







text \<open>
  A first download for the contribution \<open>A/B\<close>, \<open>T\<close>: the directories \<open>A\<close> and
  \<open>B - T\<close> are made below \<open>Posters\<close> and the chunks are written to \<open>f.pdf\<close> there.
\<close>

lemma download_attachment_new_file:
  "fst (download_attachment
         (\<lambda>u. Inr \<lparr>status_code = 200, json_body = None, chunks = [''ab'', ''cd''],
                     broken = False\<rparr>)
         [(''download_url'', JStr ''u''), (''filename'', JStr ''f.pdf'')]
         [(''friendly_id'', JStr ''A/B''), (''title'', JStr ''T'')]
         ''Posters'' initial_scraper) = True \<and>
   files (snd (download_attachment
         (\<lambda>u. Inr \<lparr>status_code = 200, json_body = None, chunks = [''ab'', ''cd''],
                     broken = False\<rparr>)
         [(''download_url'', JStr ''u''), (''filename'', JStr ''f.pdf'')]
         [(''friendly_id'', JStr ''A/B''), (''title'', JStr ''T'')]
         ''Posters'' initial_scraper))
     [''work'', ''LLRF2025_Data'', ''Posters'', ''A'', ''B - T'', ''f.pdf''] = Some ''abcd''"
proof -
  have s1: "safe_filename ''T'' default_max_length = ''T''" by code_simp
  have s2: "safe_filename ''f.pdf'' default_max_length = ''f.pdf''" by code_simp
  show ?thesis
    by (simp add: download_attachment_def download_body_def dict_index_def folder_name_def
        safe_filename_of_def s1 s2 folder_contrib_id_def dict_get_def py_str_def
        target_dir_of_def join_path_def parse_path_def mkdir_parents_def has_nul_def
        start_of_def is_dir_def initial_scraper_def target_filename_def path_exists_def
        log_info_def raise_for_status_def write_file_def Let_def)
qed

section \<open>Identifiers and file names after normalization\<close>

text \<open>
  On a dictionary that has no \<open>friendly_id\<close> key but has an \<open>id\<close>, the three places
  that print an identifier all take the \<open>id\<close>.
\<close>

lemma identifier_fallback_on_missing_key:
  assumes "map_of c ''friendly_id'' = None" and "map_of c ''id'' = Some v"
    and "map_of c ''title'' = Some (JStr t)" and "length t \<le> 60"
  shows "folder_contrib_id c = v"
    and "progress_line i n c =
           Inr (''  ['' @ int_str (int i) @ ''/'' @ int_str (int n) @ ''] '' @ py_str v @
                '': '' @ t)"
    and "summary_heading c k =
           Inr (int_str (int k) @ ''. ['' @ py_str v @ ''] '' @ t @ [CHR 0x0A])"
  using assms
  by (simp_all add: folder_contrib_id_def progress_line_def summary_heading_def dict_get_def
      dict_index_def short_title_def py_str_def)

text \<open>
  The normalizer always writes the key: a raw record without \<open>friendly_id\<close> gets the
  empty string there, and that is what \<open>get\<close> returns afterwards.
\<close>

lemma normalized_friendly_id:
  assumes "parse_contribution d = Inr c"
  shows "map_of c ''friendly_id'' = Some (dict_get d ''friendly_id'' (JStr ''''))"
    and "folder_contrib_id c = dict_get d ''friendly_id'' (JStr '''')"
    and "map_of c ''start_date'' \<noteq> None"
proof -
  from assms obtain sd st ed et sp pa co at where
    c: "c = [(''id'', dict_get d ''id'' (JStr '''')),
          (''db_id'', dict_get d ''db_id'' (JStr '''')),
          (''friendly_id'', dict_get d ''friendly_id'' (JStr '''')),
          (''title'', dict_get d ''title'' (JStr '''')),
          (''type'', dict_get d ''type'' (JStr '''')),
          (''description'', dict_get d ''description'' (JStr '''')),
          (''start_date'', sd),
          (''start_time'', st),
          (''end_date'', ed),
          (''end_time'', et),
          (''duration'', dict_get d ''duration'' (JInt 0)),
          (''location'', dict_get d ''location'' (JStr '''')),
          (''room'', dict_get d ''room'' (JStr '''')),
          (''url'', dict_get d ''url'' (JStr '''')),
          (''session'', stringified d ''session''),
          (''track'', stringified d ''track''),
          (''board_number'', dict_get d ''board_number'' (JStr '''')),
          (''code'', dict_get d ''code'' (JStr '''')),
          (''speakers'', JArr sp),
          (''primary_authors'', JArr pa),
          (''coauthors'', JArr co),
          (''attachments'', JArr at),
          (''attachment_count'', JInt (int (length at))),
          (''keywords'', dict_get d ''keywords'' (JArr []))]"
    unfolding parse_contribution_def Let_def and_then_def
    by (auto split: sum.splits)
  show "map_of c ''friendly_id'' = Some (dict_get d ''friendly_id'' (JStr ''''))"
    by (simp add: c)
  then show "folder_contrib_id c = dict_get d ''friendly_id'' (JStr '''')"
    by (simp add: folder_contrib_id_def dict_get_def [of c])
  show "map_of c ''start_date'' \<noteq> None"
    by (simp add: c)
qed

text \<open>
  C5 at the raw record \<open>{"id": "12", "title": "T"}\<close>: it has no \<open>friendly_id\<close>, its
  normalized form has the \<open>id\<close> \<open>12\<close>, and the folder name, the progress line and the
  report line are built with the empty string where the identifier belongs.
\<close>

theorem identifier_after_normalization:
  "dict_get (parsed_of (JObj [(''id'', JStr ''12''), (''title'', JStr ''T'')])) ''id'' JNull
     = JStr ''12'' \<and>
   folder_name (parsed_of (JObj [(''id'', JStr ''12''), (''title'', JStr ''T'')]))
     = Inr '' - T'' \<and>
   progress_line 1 1 (parsed_of (JObj [(''id'', JStr ''12''), (''title'', JStr ''T'')]))
     = Inr ''  [1/1] : T'' \<and>
   summary_heading (parsed_of (JObj [(''id'', JStr ''12''), (''title'', JStr ''T'')])) 1
     = Inr (''1. [] T'' @ [CHR 0x0A])"
  by code_simp

section \<open>The name of the downloaded file\<close>

text \<open>
  On a dictionary without a \<open>filename\<close> key the title is sanitized instead, and without
  both keys the name is \<open>attachment\<close>.
\<close>

lemma target_filename_on_missing_key:
  "map_of a ''filename'' = Some v \<Longrightarrow> target_filename a = safe_filename_of v"
  "map_of a ''filename'' = None \<Longrightarrow> map_of a ''title'' = Some v \<Longrightarrow>
     target_filename a = safe_filename_of v"
  "map_of a ''filename'' = None \<Longrightarrow> map_of a ''title'' = None \<Longrightarrow>
     target_filename a = Inr ''attachment''"
proof -
  have "safe_filename ''attachment'' default_max_length = ''attachment''" by code_simp
  then show "map_of a ''filename'' = None \<Longrightarrow> map_of a ''title'' = None \<Longrightarrow>
     target_filename a = Inr ''attachment''"
    by (simp add: target_filename_def dict_get_def safe_filename_of_def)
qed (simp_all add: target_filename_def dict_get_def)

text \<open>
  C9 at the raw attachment \<open>{"title": "Slides"}\<close>: the normalizer gives it the file
  name \<open>''\<close>, and the target file is named \<open>unknown\<close>, not \<open>Slides\<close>.
\<close>

theorem target_filename_after_normalization:
  "attachment_info (JObj [(''title'', JStr ''Slides'')]) =
     Inr (JObj [(''id'', JStr ''''), (''title'', JStr ''Slides''), (''filename'', JStr ''''),
                (''download_url'', JStr ''''), (''content_type'', JStr ''''),
                (''size'', JInt 0), (''modified_dt'', JStr ''''),
                (''is_protected'', JBool False)]) \<and>
   target_filename [(''id'', JStr ''''), (''title'', JStr ''Slides''), (''filename'', JStr ''''),
                (''download_url'', JStr ''''), (''content_type'', JStr ''''),
                (''size'', JInt 0), (''modified_dt'', JStr ''''),
                (''is_protected'', JBool False)] = Inr ''unknown'' \<and>
   safe_filename_of (JStr ''Slides'') = Inr ''Slides''"
  by code_simp

section \<open>Properties of the exports\<close>

text \<open>
  C10. For an event that is a dictionary the document is built, and in it the four
  numbers under \<open>statistics\<close> are the lengths of the three lists written under
  \<open>contributions\<close> and their sum.
\<close>

theorem all_contributions_document_statistics:
  "\<exists>doc st cs lo lp lx.
     all_contributions_document (JObj ev) oral posters_list others now = Inr (JObj doc) \<and>
     map_of doc ''statistics'' = Some (JObj st) \<and>
     map_of doc ''contributions'' = Some (JObj cs) \<and>
     map_of cs ''oral_presentations'' = Some (JArr lo) \<and> lo = map JObj oral \<and>
     map_of cs ''posters'' = Some (JArr lp) \<and> lp = map JObj posters_list \<and>
     map_of cs ''others'' = Some (JArr lx) \<and> lx = map JObj others \<and>
     map_of st ''oral_presentations'' = Some (JInt (int (length lo))) \<and>
     map_of st ''posters'' = Some (JInt (int (length lp))) \<and>
     map_of st ''others'' = Some (JInt (int (length lx))) \<and>
     map_of st ''total_contributions'' =
       Some (JInt (int (length lo) + int (length lp) + int (length lx)))"
  by (simp add: all_contributions_document_def Let_def)

text \<open>An event that is no dictionary gives no document.\<close>

lemma all_contributions_document_no_event:
  "all_contributions_document JNull oral posters_list others now = Inl AttributeError"
  by (simp add: all_contributions_document_def)

subsection \<open>Date buckets\<close>

lemma bucket_append_sizes:
  "sum_list (map (\<lambda>kv. length (snd kv)) (bucket_append date c by_date)) =
     Suc (sum_list (map (\<lambda>kv. length (snd kv)) by_date))"
  by (induction date c by_date rule: bucket_append.induct) auto

text \<open>The sizes of the buckets add up to the number of contributions grouped.\<close>

lemma group_by_date_sizes:
  "group_by_date cs by_date = Inr res \<Longrightarrow>
     sum_list (map (\<lambda>kv. length (snd kv)) res) =
       sum_list (map (\<lambda>kv. length (snd kv)) by_date) + length cs"
proof (induction cs arbitrary: by_date)
  case Nil
  then show ?case by simp
next
  case (Cons c cs)
  then show ?case
    by (auto simp: Let_def bucket_append_sizes split: if_splits)
qed

text \<open>With string dates the grouping never raises.\<close>

lemma group_by_date_total:
  "list_all (\<lambda>c. hashable (dict_get c ''start_date'' (JStr ''Unknown''))) cs \<Longrightarrow>
     \<exists>res. group_by_date cs by_date = Inr res"
  by (induction cs arbitrary: by_date) (auto simp: Let_def)

text \<open>
  C6 at the raw record \<open>{"id": "1", "title": "T"}\<close>, which has no \<open>startDate\<close>: its
  normalized form has the \<open>start_date\<close> \<open>''\<close>, and the grouping puts it in the bucket
  whose key is the empty string; there is no bucket \<open>Unknown\<close>.
\<close>

theorem group_by_date_empty_start_date:
  "dict_get (parsed_of (JObj [(''id'', JStr ''1''), (''title'', JStr ''T'')])) ''start_date''
     JNull = JStr '''' \<and>
   group_by_date [parsed_of (JObj [(''id'', JStr ''1''), (''title'', JStr ''T'')])] [] =
     Inr [(JStr '''', [parsed_of (JObj [(''id'', JStr ''1''), (''title'', JStr ''T'')])])] \<and>
   bucket_of (JStr ''Unknown'')
     [(JStr '''', [parsed_of (JObj [(''id'', JStr ''1''), (''title'', JStr ''T'')])])] = None"
  by code_simp

text \<open>Only a dictionary without the key \<open>start_date\<close> goes to \<open>Unknown\<close>; the normalizer returns none.\<close>

lemma group_by_date_missing_key:
  "map_of c ''start_date'' = None \<Longrightarrow> group_by_date [c] [] = Inr [(JStr ''Unknown'', [c])]"
  by (simp add: dict_get_def)

end
